theory Spec2Isabelle
  imports Complex_Main
begin

section \<open>Data model of the persisted store (database\_service.py)\<close>

text \<open>
  Instants are \<open>datetime\<close> values, which have microsecond resolution: an instant is the
  number of microseconds since the epoch, a \<open>timedelta\<close> is a number of microseconds.
  Every call of \<open>datetime.utcnow()\<close> in the source is a parameter of the model, in the
  order in which the source reads the clock.

  The \<open>Float\<close> columns are modelled by the real numbers they denote.
  A table is the list of its rows in insertion order; \<open>scalars().first()\<close> is the first
  row of that list which satisfies the \<open>where\<close> clause. Every
  \<open>async with self.async_session()\<close> is a session of its own. An attribute assignment on
  a row that the session itself has fetched, followed by \<open>commit\<close>, updates that row in
  place; a row that was fetched in another session, closed since, is detached: the commit
  does not flush the assignments made to it, and \<open>refresh\<close> of it raises.
\<close>


type_synonym instant = int

definition timedelta_days :: "int \<Rightarrow> int" where
  "timedelta_days n = n * 86400000000"

definition timedelta_weeks :: "int \<Rightarrow> int" where
  "timedelta_weeks n = timedelta_days (7 * n)"

definition timedelta_minutes :: "int \<Rightarrow> int" where
  "timedelta_minutes n = n * 60000000"

record user_row =
  user_pk :: int
  telegram_id :: int
  username :: "string option"

record subscription =
  user_id :: int
  start_date :: instant
  end_date :: instant
  subscription_type :: string
  price_paid :: real
  payment_id :: string

record payment_link =
  telegram_user_id :: int
  unique_id :: string
  link_subscription_type :: string
  amount :: real
  created_at :: instant
  paid :: bool

record match_row =
  match_pk :: int
  home_team :: string
  away_team :: string
  competition :: string
  match_time :: instant
  odds_1 :: real
  odds_x :: real
  odds_2 :: real
  notification_sent :: bool
  match_url :: "string option"

record db =
  users :: "user_row list"
  subscriptions :: "subscription list"
  payment_links :: "payment_link list"
  match_rows :: "match_row list"

text \<open>The exceptions that the modelled code can raise.\<close>

datatype error =
  IntegrityError | InvalidRequestError | AttributeError | TypeError | KeyError | IndexError
  | ValueError


text \<open>The row that \<open>first()\<close> returned, updated in place.\<close>

fun update_first :: "('a \<Rightarrow> bool) \<Rightarrow> ('a \<Rightarrow> 'a) \<Rightarrow> 'a list \<Rightarrow> 'a list" where
  "update_first P f [] = []"
| "update_first P f (x # xs) = (if P x then f x # xs else x # update_first P f xs)"

subsection \<open>Payment links\<close>

text \<open>
  \<open>create_payment_link\<close>: the token \<open>uuid.uuid4().hex[:10]\<close> and the column default
  \<open>created_at = utcnow()\<close> are parameters; \<open>paid\<close> takes its column default \<open>False\<close>;
  the column \<open>unique_id\<close> is declared unique, so that the commit of a second row with the
  same token raises.
\<close>

definition create_payment_link ::
  "db \<Rightarrow> string \<Rightarrow> instant \<Rightarrow> int \<Rightarrow> string \<Rightarrow> real \<Rightarrow> error + (db \<times> payment_link)" where
  "create_payment_link d token now tg_user sub_type amt =
     (let payment_link = \<lparr>telegram_user_id = tg_user, unique_id = token,
                           link_subscription_type = sub_type, amount = amt,
                           created_at = now, paid = False\<rparr>
      in if \<exists>p \<in> set (payment_links d). unique_id p = token then Inl IntegrityError
         else Inr (d\<lparr>payment_links := payment_links d @ [payment_link]\<rparr>, payment_link))"

definition get_payment_link :: "db \<Rightarrow> string \<Rightarrow> payment_link option" where
  "get_payment_link d token = find (\<lambda>p. unique_id p = token) (payment_links d)"

definition mark_payment_as_paid :: "db \<Rightarrow> string \<Rightarrow> db \<times> payment_link option" where
  "mark_payment_as_paid d token =
     (case find (\<lambda>p. unique_id p = token) (payment_links d) of
        None \<Rightarrow> (d, None)
      | Some payment_link \<Rightarrow>
          if \<not> paid payment_link
          then (d\<lparr>payment_links :=
                     update_first (\<lambda>p. unique_id p = token) (\<lambda>p. p\<lparr>paid := True\<rparr>)
                       (payment_links d)\<rparr>,
                Some (payment_link\<lparr>paid := True\<rparr>))
          else (d, None))"

subsection \<open>Subscriptions\<close>

definition has_active_subscription :: "db \<Rightarrow> instant \<Rightarrow> int \<Rightarrow> bool" where
  "has_active_subscription d now uid =
     (find (\<lambda>s. user_id s = uid \<and> end_date s \<ge> now) (subscriptions d) \<noteq> None)"

definition get_active_subscription :: "db \<Rightarrow> instant \<Rightarrow> int \<Rightarrow> subscription option" where
  "get_active_subscription d now uid =
     find (\<lambda>s. user_id s = uid \<and> end_date s \<ge> now) (subscriptions d)"

text \<open>
  A row as a session sees it: persistent in this session (added to it or fetched by it), or
  detached, that is, fetched by a session that has been closed. \<open>session.refresh\<close>
  reloads a persistent row and raises \<open>InvalidRequestError\<close> for a detached one.
\<close>

datatype 'a instance_state = Persistent 'a | Detached 'a

fun session_refresh :: "'a instance_state \<Rightarrow> error + 'a" where
  "session_refresh (Persistent row) = Inr row"
| "session_refresh (Detached row) = Inl InvalidRequestError"

text \<open>
  \<open>create_subscription\<close> reads the clock itself (\<open>now\<close>) and then calls
  \<open>get_active_subscription\<close>, which reads it again (\<open>now_q\<close>) and opens a session of its
  own: the existing subscription is detached when the function assigns to it, so that the
  commit of the function's session leaves the table as it is, and the refresh raises. A new
  subscription is added to the function's session, committed and refreshed.
\<close>

definition create_subscription ::
  "db \<Rightarrow> instant \<Rightarrow> instant \<Rightarrow> int \<Rightarrow> string \<Rightarrow> real \<Rightarrow> string
     \<Rightarrow> db \<times> (error + subscription \<times> bool)" where
  "create_subscription d now now_q uid sub_type amt pay_id =
     (let duration =
            (if sub_type = ''week'' then timedelta_weeks 1
             else if sub_type = ''two_weeks'' then timedelta_weeks 2
             else if sub_type = ''month'' then timedelta_days 31
             else timedelta_weeks 1)
      in case get_active_subscription d now_q uid of
           Some existing_subscription \<Rightarrow>
             (let base_date = max now (end_date existing_subscription);
                  subscription = existing_subscription
                    \<lparr>end_date := base_date + duration,
                     price_paid := price_paid existing_subscription + amt,
                     payment_id := pay_id\<rparr>
              in case session_refresh (Detached subscription) of
                   Inl e \<Rightarrow> (d, Inl e)
                 | Inr row \<Rightarrow> (d, Inr (row, True)))
         | None \<Rightarrow>
             (let subscription = \<lparr>user_id = uid, start_date = now, end_date = now + duration,
                                   subscription_type = sub_type, price_paid = amt,
                                   payment_id = pay_id\<rparr>;
                  d' = d\<lparr>subscriptions := subscriptions d @ [subscription]\<rparr>
              in case session_refresh (Persistent subscription) of
                   Inl e \<Rightarrow> (d', Inl e)
                 | Inr row \<Rightarrow> (d', Inr (row, False))))"

text \<open>
  \<open>func.lower\<close> of the store: the ASCII letters are folded, a \<open>NULL\<close> username matches
  nothing.
\<close>

definition sql_lower :: "string \<Rightarrow> string" where
  "sql_lower s =
     map (\<lambda>c. case map_of (zip ''ABCDEFGHIJKLMNOPQRSTUVWXYZ'' ''abcdefghijklmnopqrstuvwxyz'') c of
                 Some l \<Rightarrow> l | None \<Rightarrow> c) s"

definition find_user_by_username :: "db \<Rightarrow> string \<Rightarrow> user_row option" where
  "find_user_by_username d uname =
     find (\<lambda>u. case username u of None \<Rightarrow> False
                | Some n \<Rightarrow> sql_lower n = sql_lower uname) (users d)"

text \<open>
  \<open>admin_create_subscription\<close>: \<open>token\<close> is \<open>uuid.uuid4().hex[:10]\<close>. The result
  \<open>Inr None\<close> is the source's \<open>return None\<close>. The user is fetched by the function's own
  session, the existing subscription by the session of \<open>get_active_subscription\<close>, as in
  \<open>create_subscription\<close>.
\<close>

definition admin_create_subscription ::
  "db \<Rightarrow> instant \<Rightarrow> instant \<Rightarrow> string \<Rightarrow> string \<Rightarrow> string
     \<Rightarrow> db \<times> (error + (subscription \<times> int \<times> bool) option)" where
  "admin_create_subscription d now now_q token uname sub_type =
     (case find_user_by_username d uname of
        None \<Rightarrow> (d, Inr None)
      | Some user \<Rightarrow>
         (case (if sub_type = ''week'' then Some (timedelta_days 7, (650::real))
                else if sub_type = ''two_weeks'' then Some (timedelta_days 14, 1300)
                else if sub_type = ''month'' then Some (timedelta_days 30, 2500)
                else None) of
            None \<Rightarrow> (d, Inr None)
          | Some (duration, price) \<Rightarrow>
             (case get_active_subscription d now_q (user_pk user) of
                Some existing_subscription \<Rightarrow>
                  (let base_date = max now (end_date existing_subscription);
                       subscription = existing_subscription
                         \<lparr>end_date := base_date + duration,
                          price_paid := price_paid existing_subscription + price,
                          subscription_type := sub_type,
                          payment_id := ''admin_'' @ token\<rparr>
                   in case session_refresh (Detached subscription) of
                        Inl e \<Rightarrow> (d, Inl e)
                      | Inr row \<Rightarrow> (d, Inr (Some (row, telegram_id user, True))))
              | None \<Rightarrow>
                  (let subscription = \<lparr>user_id = user_pk user, start_date = now,
                                        end_date = now + duration,
                                        subscription_type = sub_type, price_paid = price,
                                        payment_id = ''admin_'' @ token\<rparr>;
                       d' = d\<lparr>subscriptions := subscriptions d @ [subscription]\<rparr>
                   in case session_refresh (Persistent subscription) of
                        Inl e \<Rightarrow> (d', Inl e)
                      | Inr row \<Rightarrow> (d', Inr (Some (row, telegram_id user, False)))))))"

text \<open>
  \<open>revoke_subscription\<close> reads the clock in its query (\<open>now_q\<close>) and again when it sets
  the end date (\<open>now_set\<close>). It fetches the subscription in its own session.
\<close>

definition revoke_subscription ::
  "db \<Rightarrow> instant \<Rightarrow> instant \<Rightarrow> string \<Rightarrow> db \<times> int option" where
  "revoke_subscription d now_q now_set uname =
     (case find_user_by_username d uname of
        None \<Rightarrow> (d, None)
      | Some user \<Rightarrow>
         (case find (\<lambda>s. user_id s = user_pk user \<and> end_date s \<ge> now_q) (subscriptions d) of
            None \<Rightarrow> (d, None)
          | Some subscription \<Rightarrow>
              (d\<lparr>subscriptions :=
                    update_first (\<lambda>s. user_id s = user_pk user \<and> end_date s \<ge> now_q)
                      (\<lambda>s. s\<lparr>end_date := now_set - timedelta_minutes 1\<rparr>)
                      (subscriptions d)\<rparr>,
               Some (telegram_id user))))"

subsection \<open>Persisted matches\<close>

text \<open>
  \<open>add_match\<close>: the primary key is assigned by the store, one more than the largest key
  in the table; \<open>notification_sent\<close> takes its column default \<open>False\<close>.
\<close>

definition next_match_pk :: "match_row list \<Rightarrow> int" where
  "next_match_pk ms = foldr max (map match_pk ms) 0 + 1"

definition add_match ::
  "db \<Rightarrow> string \<Rightarrow> string \<Rightarrow> string \<Rightarrow> instant \<Rightarrow> real \<Rightarrow> real \<Rightarrow> real \<Rightarrow> string option
     \<Rightarrow> db \<times> match_row" where
  "add_match d home away league mtime o1 ox o2 url =
     (let match = \<lparr>match_pk = next_match_pk (match_rows d), home_team = home, away_team = away,
                    competition = league, match_time = mtime, odds_1 = o1, odds_x = ox,
                    odds_2 = o2, notification_sent = False, match_url = url\<rparr>
      in (d\<lparr>match_rows := match_rows d @ [match]\<rparr>, match))"

text \<open>\<open>func.round\<close> of the store: to \<open>n\<close> decimals, halves away from zero.\<close>

definition sql_round :: "real \<Rightarrow> nat \<Rightarrow> real" where
  "sql_round x n = sgn x * of_int \<lfloor>\<bar>x\<bar> * 10 ^ n + 1 / 2\<rfloor> / 10 ^ n"

text \<open>
  \<open>get_matches_with_target_odds\<close>: each of the two \<open>and_\<close> clauses reads the clock when
  the query is built (\<open>now1\<close>, \<open>now2\<close>).
\<close>

definition get_matches_with_target_odds :: "db \<Rightarrow> instant \<Rightarrow> instant \<Rightarrow> match_row list" where
  "get_matches_with_target_odds d now1 now2 =
     filter (\<lambda>m. (sql_round (odds_1 m) 2 = 4.25 \<and> sql_round (odds_2 m) 3 = 1.225
                    \<and> notification_sent m = False \<and> match_time m \<ge> now1)
                \<or> (sql_round (odds_1 m) 2 = 4.22 \<and> sql_round (odds_2 m) 3 = 1.225
                    \<and> notification_sent m = False \<and> match_time m \<ge> now2))
       (match_rows d)"

definition mark_match_as_notified :: "db \<Rightarrow> int \<Rightarrow> db" where
  "mark_match_as_notified d mid =
     (case find (\<lambda>m. match_pk m = mid) (match_rows d) of
        Some match \<Rightarrow>
          d\<lparr>match_rows := update_first (\<lambda>m. match_pk m = mid)
                          (\<lambda>m. m\<lparr>notification_sent := True\<rparr>) (match_rows d)\<rparr>
      | None \<Rightarrow> d)"

subsection \<open>Sequences of store operations\<close>

datatype db_op =
    CreatePaymentLink string instant int string real
  | MarkPaymentAsPaid string
  | CreateSubscription instant instant int string real string
  | AdminCreateSubscription instant instant string string string
  | RevokeSubscription instant instant string
  | AddMatch string string string instant real real real "string option"
  | MarkMatchAsNotified int

fun db_step :: "db_op \<Rightarrow> db \<Rightarrow> db" where
  "db_step (CreatePaymentLink token now tg_user sub_type amt) d =
     (case create_payment_link d token now tg_user sub_type amt of
        Inl e \<Rightarrow> d | Inr (d', l) \<Rightarrow> d')"
| "db_step (MarkPaymentAsPaid token) d = fst (mark_payment_as_paid d token)"
| "db_step (CreateSubscription now now_q uid sub_type amt pay_id) d =
     fst (create_subscription d now now_q uid sub_type amt pay_id)"
| "db_step (AdminCreateSubscription now now_q token uname sub_type) d =
     fst (admin_create_subscription d now now_q token uname sub_type)"
| "db_step (RevokeSubscription now_q now_set uname) d =
     fst (revoke_subscription d now_q now_set uname)"
| "db_step (AddMatch home away league mtime o1 ox o2 url) d =
     fst (add_match d home away league mtime o1 ox o2 url)"
| "db_step (MarkMatchAsNotified mid) d = mark_match_as_notified d mid"

definition db_run :: "db_op list \<Rightarrow> db \<Rightarrow> db" where
  "db_run ops d = fold db_step ops d"

subsection \<open>Auxiliary notions for the payment links\<close>

text \<open>The first row carrying a token is settled; and a table that only grows, keeps its
  tokens and never unsets a settled flag.\<close>

definition first_settled :: "string \<Rightarrow> payment_link list \<Rightarrow> bool" where
  "first_settled token ls = (case find (\<lambda>p. unique_id p = token) ls of Some p \<Rightarrow> paid p | None \<Rightarrow> False)"

definition links_grow :: "payment_link list \<Rightarrow> payment_link list \<Rightarrow> bool" where
  "links_grow ls ls' \<longleftrightarrow>
     length ls \<le> length ls' \<and>
     (\<forall>i < length ls. unique_id (ls' ! i) = unique_id (ls ! i) \<and> (paid (ls ! i) \<longrightarrow> paid (ls' ! i)))"

subsection \<open>Auxiliary notions for the subscriptions\<close>

text \<open>
  The rows of a user that are active at an instant; the ledger invariant; and the instants
  at which a sequence of operations queries the subscriptions, which a clock that does not
  run backwards reads in non-decreasing order.
\<close>

definition active_rows :: "db \<Rightarrow> instant \<Rightarrow> int \<Rightarrow> subscription list" where
  "active_rows d t uid = filter (\<lambda>s. user_id s = uid \<and> end_date s \<ge> t) (subscriptions d)"

definition one_active_per_user :: "db \<Rightarrow> instant \<Rightarrow> bool" where
  "one_active_per_user d t =
     list_all (\<lambda>s. length (active_rows d t (user_id s)) \<le> 1) (subscriptions d)"

fun op_clock :: "db_op \<Rightarrow> instant option" where
  "op_clock (CreateSubscription now now_q uid sub_type amt pay_id) = Some now_q"
| "op_clock (AdminCreateSubscription now now_q token uname sub_type) = Some now_q"
| "op_clock (RevokeSubscription now_q now_set uname) = Some now_q"
| "op_clock _ = None"

fun chronological :: "instant \<Rightarrow> db_op list \<Rightarrow> bool" where
  "chronological t [] = True"
| "chronological t (op # ops) =
     (case op_clock op of None \<Rightarrow> chronological t ops
      | Some q \<Rightarrow> t \<le> q \<and> chronological q ops)"

fun last_clock :: "instant \<Rightarrow> db_op list \<Rightarrow> instant" where
  "last_clock t [] = t"
| "last_clock t (op # ops) =
     (case op_clock op of None \<Rightarrow> last_clock t ops | Some q \<Rightarrow> last_clock q ops)"

subsection \<open>Auxiliary notion for the persisted matches\<close>

text \<open>Every row with the key is flagged, and the key will not be assigned again.\<close>

definition notified_for_good :: "int \<Rightarrow> match_row list \<Rightarrow> bool" where
  "notified_for_good mid rows \<longleftrightarrow>
     list_all (\<lambda>m. match_pk m = mid \<longrightarrow> notification_sent m) rows \<and> mid < next_match_pk rows"

section \<open>Odds cache and matcher (match\_service.py)\<close>

text \<open>
  The feed delivers JSON, which Python holds as \<open>None\<close>, \<open>bool\<close>, numbers, \<open>str\<close>,
  \<open>list\<close> and \<open>dict\<close>. A \<open>dict\<close> is the association list of its items, looked up with
  \<open>map_of\<close>; numbers are modelled by the reals they denote.
\<close>

datatype json =
    JNull
  | JBool bool
  | JNum real
  | JStr string
  | JArr "json list"
  | JObj "(string \<times> json) list"

text \<open>An offset-naive or an offset-aware \<open>datetime\<close>, as an instant of UTC.\<close>

datatype py_datetime = Naive instant | Aware instant

text \<open>
  The functions of Python's library that parse text are parameters of the model:
  \<open>datetime.fromisoformat\<close> and \<open>float\<close> on a \<open>str\<close>; \<open>None\<close> is their \<open>ValueError\<close>.
\<close>

record pylib =
  fromisoformat :: "string \<Rightarrow> py_datetime option"
  float_of_str :: "string \<Rightarrow> real option"

definition and_then :: "error + 'a \<Rightarrow> ('a \<Rightarrow> error + 'b) \<Rightarrow> error + 'b" where
  "and_then r f = (case r of Inl e \<Rightarrow> Inl e | Inr x \<Rightarrow> f x)"

text \<open>Truth value of an object (\<open>if x\<close>, \<open>not x\<close>).\<close>

fun py_truthy :: "json \<Rightarrow> bool" where
  "py_truthy JNull = False"
| "py_truthy (JBool b) = b"
| "py_truthy (JNum r) = (r \<noteq> 0)"
| "py_truthy (JStr s) = (s \<noteq> [])"
| "py_truthy (JArr xs) = (xs \<noteq> [])"
| "py_truthy (JObj kvs) = (kvs \<noteq> [])"

text \<open>\<open>x.get(key, default)\<close>: only a \<open>dict\<close> has the method.\<close>

fun py_get :: "json \<Rightarrow> string \<Rightarrow> json \<Rightarrow> error + json" where
  "py_get (JObj kvs) key dflt = Inr (case map_of kvs key of Some v \<Rightarrow> v | None \<Rightarrow> dflt)"
| "py_get _ key dflt = Inl AttributeError"

text \<open>\<open>x[i]\<close> for a non-negative integer \<open>i\<close>; the keys of a JSON \<open>dict\<close> are strings.\<close>

fun py_item :: "json \<Rightarrow> nat \<Rightarrow> error + json" where
  "py_item (JArr xs) i = (if i < length xs then Inr (xs ! i) else Inl IndexError)"
| "py_item (JStr s) i = (if i < length s then Inr (JStr [s ! i]) else Inl IndexError)"
| "py_item (JObj kvs) i = Inl KeyError"
| "py_item _ i = Inl TypeError"

fun py_len :: "json \<Rightarrow> error + nat" where
  "py_len (JArr xs) = Inr (length xs)"
| "py_len (JStr s) = Inr (length s)"
| "py_len (JObj kvs) = Inr (length (remdups (map fst kvs)))"
| "py_len _ = Inl TypeError"

text \<open>The elements that \<open>for x in v\<close> visits.\<close>

fun py_iter :: "json \<Rightarrow> error + json list" where
  "py_iter (JArr xs) = Inr xs"
| "py_iter (JStr s) = Inr (map (\<lambda>c. JStr [c]) s)"
| "py_iter (JObj kvs) = Inr (map JStr (remdups (map fst kvs)))"
| "py_iter _ = Inl TypeError"

fun py_float :: "pylib \<Rightarrow> json \<Rightarrow> error + real" where
  "py_float lib (JNum r) = Inr r"
| "py_float lib (JBool b) = Inr (if b then 1 else 0)"
| "py_float lib (JStr s) = (case float_of_str lib s of Some r \<Rightarrow> Inr r | None \<Rightarrow> Inl ValueError)"
| "py_float lib _ = Inl TypeError"

text \<open>\<open>match_time_str.replace('Z', '+00:00')\<close>: only a \<open>str\<close> has the method.\<close>

fun py_replace_Z :: "json \<Rightarrow> error + string" where
  "py_replace_Z (JStr s) = Inr (concat (map (\<lambda>c. if c = CHR ''Z'' then ''+00:00'' else [c]) s))"
| "py_replace_Z _ = Inl AttributeError"

definition py_fromisoformat :: "pylib \<Rightarrow> string \<Rightarrow> error + py_datetime" where
  "py_fromisoformat lib s = (case fromisoformat lib s of Some t \<Rightarrow> Inr t | None \<Rightarrow> Inl ValueError)"

text \<open>
  \<open>match_time < now\<close>, where \<open>now = datetime.utcnow()\<close> is offset-naive: Python refuses
  to compare an offset-aware with an offset-naive \<open>datetime\<close>.
\<close>

fun py_before_naive :: "py_datetime \<Rightarrow> instant \<Rightarrow> error + bool" where
  "py_before_naive (Naive t) now = Inr (t < now)"
| "py_before_naive (Aware t) now = Inl TypeError"

subsection \<open>FootballApiClient\<close>

text \<open>
  What the request does is an input: the connection fails, or a response arrives with a
  status and a body that is JSON or not.
\<close>

datatype http_result = RequestFailed | Response int "json option"

definition api_fetch_matches :: "string option \<Rightarrow> http_result \<Rightarrow> json" where
  "api_fetch_matches api_key upstream =
     (if api_key = None \<or> api_key = Some [] then JArr []
      else case upstream of
             RequestFailed \<Rightarrow> JArr []
           | Response status body \<Rightarrow>
               if status \<noteq> 200 then JArr []
               else (case body of None \<Rightarrow> JArr [] | Some data \<Rightarrow> data))"

subsection \<open>MatchService\<close>

record match_service =
  api_key :: "string option"
  cache :: json
  last_update :: "instant option"
  cache_ttl :: int

definition init_match_service :: "string option \<Rightarrow> int \<Rightarrow> match_service" where
  "init_match_service key ttl = \<lparr>api_key = key, cache = JArr [], last_update = None, cache_ttl = ttl\<rparr>"

text \<open>
  \<open>fetch_matches\<close> returns the new state, the returned snapshot, and whether
  \<open>api_client.fetch_matches()\<close> was called. \<open>total_seconds()\<close> is the age in
  microseconds divided by \<open>10^6\<close>.
\<close>

definition fetch_matches ::
  "match_service \<Rightarrow> instant \<Rightarrow> http_result \<Rightarrow> match_service \<times> json \<times> bool" where
  "fetch_matches ms now upstream =
     (if (case last_update ms of None \<Rightarrow> False
          | Some lu \<Rightarrow> real_of_int (now - lu) / 1000000 < real_of_int (cache_ttl ms))
      then (ms, cache ms, False)
      else (let matches = api_fetch_matches (api_key ms) upstream
            in if py_truthy matches
               then (ms\<lparr>cache := matches, last_update := Some now\<rparr>, matches, True)
               else (ms, cache ms, True)))"

text \<open>The loop that looks for the market with the key h2h, with its \<open>break\<close>.\<close>

fun find_h2h :: "json list \<Rightarrow> error + json option" where
  "find_h2h [] = Inr None"
| "find_h2h (market # markets) =
     and_then (py_get market ''key'' JNull)
       (\<lambda>k. if k = JStr ''h2h'' then Inr (Some market) else find_h2h markets)"

text \<open>
  The body of the loop of \<open>check_for_matches_with_target_odds\<close> for one match:
  \<open>Inr True\<close> when the match is appended to the result, \<open>Inr False\<close> at a \<open>continue\<close>,
  \<open>Inl e\<close> when \<open>e\<close> is raised, which the \<open>except\<close> clause of the body catches and logs.
\<close>

definition visit_match :: "pylib \<Rightarrow> instant \<Rightarrow> real \<Rightarrow> real \<Rightarrow> json \<Rightarrow> error + bool" where
  "visit_match lib now min_odds max_odds match =
     and_then (py_get match ''commence_time'' JNull) (\<lambda>match_time_str.
     if \<not> py_truthy match_time_str then Inr False
     else
     and_then (py_replace_Z match_time_str) (\<lambda>iso.
     and_then (py_fromisoformat lib iso) (\<lambda>match_time.
     and_then (py_before_naive match_time now) (\<lambda>past.
     if past then Inr False
     else
     and_then (py_get match ''bookmakers'' (JArr [])) (\<lambda>bookmakers.
     if \<not> py_truthy bookmakers then Inr False
     else
     and_then (py_item bookmakers 0) (\<lambda>bookmaker.
     and_then (py_get bookmaker ''markets'' (JArr [])) (\<lambda>markets.
     if \<not> py_truthy markets then Inr False
     else
     and_then (py_iter markets) (\<lambda>market_list.
     and_then (find_h2h market_list) (\<lambda>h2h_market.
     case h2h_market of
       None \<Rightarrow> Inr False
     | Some h2h \<Rightarrow>
         if \<not> py_truthy h2h then Inr False
         else
         and_then (py_get h2h ''outcomes'' (JArr [])) (\<lambda>outcomes.
         and_then (py_len outcomes) (\<lambda>n.
         if n < 2 then Inr False
         else
         and_then (py_item outcomes 0) (\<lambda>outcome0.
         and_then (py_get outcome0 ''price'' (JNum 0)) (\<lambda>price0.
         and_then (py_float lib price0) (\<lambda>odds_1.
         and_then (py_item outcomes 1) (\<lambda>outcome1.
         and_then (py_get outcome1 ''price'' (JNum 0)) (\<lambda>price1.
         and_then (py_float lib price1) (\<lambda>odds_2.
         Inr (min_odds \<le> odds_1 \<and> odds_1 \<le> max_odds
              \<or> min_odds \<le> odds_2 \<and> odds_2 \<le> max_odds))))))))))))))))))"

text \<open>
  \<open>check_for_matches_with_target_odds\<close>: \<open>now_fetch\<close> is the clock that
  \<open>fetch_matches\<close> reads, \<open>now\<close> the one the function reads afterwards. A snapshot that
  cannot be iterated raises outside the \<open>try\<close>.
\<close>

definition check_for_matches_with_target_odds ::
  "pylib \<Rightarrow> match_service \<Rightarrow> instant \<Rightarrow> http_result \<Rightarrow> instant \<Rightarrow> real \<Rightarrow> real
     \<Rightarrow> match_service \<times> (error + json list)" where
  "check_for_matches_with_target_odds lib ms now_fetch upstream now min_odds max_odds =
     (case fetch_matches ms now_fetch upstream of
        (ms', matches, called) \<Rightarrow>
          (ms', and_then (py_iter matches)
                  (\<lambda>match_list.
                     Inr (filter (\<lambda>match. visit_match lib now min_odds max_odds match = Inr True)
                            match_list))))"

text \<open>\<open>MatchService.mark_match_as_notified\<close>: its body is \<open>pass\<close>.\<close>

definition service_mark_match_as_notified :: "match_service \<Rightarrow> json \<Rightarrow> match_service" where
  "service_mark_match_as_notified ms match_id = ms"

text \<open>
  The payload of a successful upstream fetch: the key is set, a response arrives with
  status 200 and its body is JSON. \<open>None\<close> is a failed fetch.
\<close>

definition upstream_payload :: "string option \<Rightarrow> http_result \<Rightarrow> json option" where
  "upstream_payload key upstream =
     (if key = None \<or> key = Some [] then None
      else case upstream of
             RequestFailed \<Rightarrow> None
           | Response status body \<Rightarrow> if status = 200 then body else None)"

text \<open>The cache is stale, or was never filled.\<close>

definition cache_expired :: "match_service \<Rightarrow> instant \<Rightarrow> bool" where
  "cache_expired ms now =
     (case last_update ms of None \<Rightarrow> True
      | Some lu \<Rightarrow> \<not> real_of_int (now - lu) / 1000000 < real_of_int (cache_ttl ms))"

text \<open>A sequence of \<open>fetch_matches\<close> calls, each with its clock and its upstream.\<close>

fun fetch_all :: "match_service \<Rightarrow> (instant \<times> http_result) list \<Rightarrow> match_service" where
  "fetch_all ms [] = ms"
| "fetch_all ms ((now, upstream) # calls) = fetch_all (fst (fetch_matches ms now upstream)) calls"

section \<open>Example states\<close>

definition example_links :: db where
  "example_links =
     \<lparr>users = [], subscriptions = [],
      payment_links = [\<lparr>telegram_user_id = 77, unique_id = ''a1b2c3d4e5'',
                        link_subscription_type = ''week'', amount = 650,
                        created_at = 1000, paid = False\<rparr>,
                       \<lparr>telegram_user_id = 78, unique_id = ''ffffffffff'',
                        link_subscription_type = ''month'', amount = 2500,
                        created_at = 2000, paid = True\<rparr>],
      match_rows = []\<rparr>"

definition example_ledger :: db where
  "example_ledger =
     \<lparr>users = [\<lparr>user_pk = 1, telegram_id = 5001, username = Some ''Alice''\<rparr>,
               \<lparr>user_pk = 2, telegram_id = 5002, username = Some ''bob''\<rparr>],
      subscriptions = [\<lparr>user_id = 1, start_date = 0, end_date = 604800000000,
                        subscription_type = ''week'', price_paid = 650, payment_id = ''pay1''\<rparr>],
      payment_links = [], match_rows = []\<rparr>"

definition example_pylib :: pylib where
  "example_pylib =
     \<lparr>fromisoformat =
        (\<lambda>s. if s = ''2030-01-01T00:00:00'' then Some (Naive 1893456000000000)
              else if s = ''2030-01-01T00:00:00+00:00'' then Some (Aware 1893456000000000)
              else None),
      float_of_str = (\<lambda>s. if s = ''2.5'' then Some 2.5 else None)\<rparr>"

definition example_outcomes :: "real \<Rightarrow> real \<Rightarrow> real \<Rightarrow> json" where
  "example_outcomes p1 p2 p3 =
     JArr [JObj [(''name'', JStr ''Home''), (''price'', JNum p1)],
           JObj [(''name'', JStr ''Away''), (''price'', JNum p2)],
           JObj [(''name'', JStr ''Draw''), (''price'', JNum p3)]]"

definition example_match :: "string \<Rightarrow> string \<Rightarrow> json list \<Rightarrow> json" where
  "example_match mid commence bookmakers =
     JObj [(''id'', JStr mid), (''home_team'', JStr ''Home''), (''away_team'', JStr ''Away''),
           (''commence_time'', JStr commence), (''bookmakers'', JArr bookmakers)]"

definition example_bookmaker :: "string \<Rightarrow> json list \<Rightarrow> json" where
  "example_bookmaker name markets = JObj [(''key'', JStr name), (''markets'', JArr markets)]"

definition example_market :: "string \<Rightarrow> json \<Rightarrow> json" where
  "example_market k outcomes = JObj [(''key'', JStr k), (''outcomes'', outcomes)]"

definition example_feed_match :: json where
  "example_feed_match =
     example_match ''m1'' ''2030-01-01T00:00:00''
       [example_bookmaker ''bk1'' [example_market ''h2h'' (example_outcomes 2.5 3.1 3.3)]]"

definition example_service :: match_service where
  "example_service =
     \<lparr>api_key = Some ''key'', cache = JArr [example_feed_match],
      last_update = Some 1700000000000000, cache_ttl = 600\<rparr>"

definition example_other_match :: json where
  "example_other_match =
     example_match ''m2'' ''2030-01-01T00:00:00''
       [example_bookmaker ''bk1'' [example_market ''h2h'' (example_outcomes 1.2 9 3)],
        example_bookmaker ''bk2'' [example_market ''h2h'' (example_outcomes 2 2 3)]]"

definition example_fixtures :: db where
  "example_fixtures =
     \<lparr>users = [], subscriptions = [], payment_links = [],
      match_rows = [\<lparr>match_pk = 1, home_team = ''Home'', away_team = ''Away'',
                      competition = ''League'', match_time = 1893456000000000,
                      odds_1 = 4.25, odds_x = 3.5, odds_2 = 1.225,
                      notification_sent = False, match_url = None\<rparr>,
                    \<lparr>match_pk = 2, home_team = ''Left'', away_team = ''Right'',
                      competition = ''League'', match_time = 1893456000000000,
                      odds_1 = 4.22, odds_x = 3.5, odds_2 = 1.225,
                      notification_sent = False, match_url = None\<rparr>]\<rparr>"

section \<open>Properties of the store\<close>

lemma find_update_first_same:
  "find P xs = Some x \<Longrightarrow> P (f x) \<Longrightarrow> find P (update_first P f xs) = Some (f x)"
  by (induction xs) (auto split: if_splits)

lemma length_update_first [simp]: "length (update_first P f xs) = length xs"
  by (induction xs) auto

subsection \<open>Payment links\<close>

lemma find_append_one:
  "find P (xs @ [y]) = (case find P xs of Some x \<Rightarrow> Some x | None \<Rightarrow> if P y then Some y else None)"
  by (induction xs) auto

lemma first_settled_append: "first_settled t ls \<Longrightarrow> first_settled t (ls @ [l])"
  by (simp add: first_settled_def find_append_one split: option.splits)

lemma first_settled_update:
  "first_settled t ls \<Longrightarrow>
   first_settled t (update_first (\<lambda>p. unique_id p = t') (\<lambda>p. p\<lparr>paid := True\<rparr>) ls)"
  by (induction ls) (auto simp: first_settled_def split: option.splits if_splits)

lemma first_settled_after_mark:
  "find (\<lambda>p. unique_id p = t) ls = Some l \<Longrightarrow>
   first_settled t (update_first (\<lambda>p. unique_id p = t) (\<lambda>p. p\<lparr>paid := True\<rparr>) ls)"
  by (induction ls) (auto simp: first_settled_def split: option.splits if_splits)

lemma payment_links_create_subscription [simp]:
  "payment_links (fst (create_subscription d now now_q uid st amt pid)) = payment_links d"
  by (simp add: create_subscription_def Let_def split: option.splits)

lemma payment_links_admin_create_subscription [simp]:
  "payment_links (fst (admin_create_subscription d now now_q tok un st)) = payment_links d"
  by (simp add: admin_create_subscription_def Let_def split: option.splits)

lemma payment_links_revoke_subscription [simp]:
  "payment_links (fst (revoke_subscription d nq ns un)) = payment_links d"
  by (simp add: revoke_subscription_def split: option.splits)

lemma payment_links_add_match [simp]:
  "payment_links (fst (add_match d h a l t o1 ox o2 u)) = payment_links d"
  by (simp add: add_match_def Let_def)

lemma payment_links_mark_match_as_notified [simp]:
  "payment_links (mark_match_as_notified d mid) = payment_links d"
  by (simp add: mark_match_as_notified_def split: option.splits)

lemma first_settled_step:
  "first_settled t (payment_links d) \<Longrightarrow> first_settled t (payment_links (db_step op d))"
  by (cases op)
     (auto simp: create_payment_link_def mark_payment_as_paid_def Let_def
        first_settled_append first_settled_update split: option.splits)

lemma first_settled_run:
  "first_settled t (payment_links d) \<Longrightarrow> first_settled t (payment_links (db_run ops d))"
  unfolding db_run_def by (induction ops arbitrary: d) (auto simp: first_settled_step)

lemma first_settled_mark_none:
  "first_settled t (payment_links d) \<Longrightarrow> mark_payment_as_paid d t = (d, None)"
  by (auto simp: first_settled_def mark_payment_as_paid_def split: option.splits)

lemma links_grow_refl: "links_grow ls ls"
  by (simp add: links_grow_def)

lemma links_grow_trans: "links_grow a b \<Longrightarrow> links_grow b c \<Longrightarrow> links_grow a c"
  by (auto simp: links_grow_def)

lemma links_grow_append: "links_grow ls (ls @ [l])"
  by (simp add: links_grow_def nth_append)

lemma update_first_paid_nth:
  "i < length ls \<Longrightarrow>
   unique_id (update_first P (\<lambda>p. p\<lparr>paid := True\<rparr>) ls ! i) = unique_id (ls ! i) \<and>
   (paid (ls ! i) \<longrightarrow> paid (update_first P (\<lambda>p. p\<lparr>paid := True\<rparr>) ls ! i))"
proof (induction ls arbitrary: i)
  case Nil
  then show ?case by simp
next
  case (Cons x xs)
  then show ?case by (cases i) auto
qed

lemma links_grow_update: "links_grow ls (update_first P (\<lambda>p. p\<lparr>paid := True\<rparr>) ls)"
  by (simp add: links_grow_def update_first_paid_nth)

lemma links_grow_step: "links_grow (payment_links d) (payment_links (db_step op d))"
  by (cases op)
     (auto simp: create_payment_link_def mark_payment_as_paid_def Let_def
        links_grow_refl links_grow_append links_grow_update split: option.splits)

lemma links_grow_run: "links_grow (payment_links d) (payment_links (db_run ops d))"
  unfolding db_run_def
proof (induction ops arbitrary: d)
  case Nil
  show ?case by (simp add: links_grow_refl)
next
  case (Cons op ops)
  have "links_grow (payment_links d) (payment_links (db_step op d))"
    by (rule links_grow_step)
  moreover have "links_grow (payment_links (db_step op d)) (payment_links (fold db_step ops (db_step op d)))"
    by (rule Cons.IH)
  ultimately show ?case by (auto intro: links_grow_trans)
qed

text \<open>
  Claim C2. The first \<open>mark_payment_as_paid\<close> of a token whose payment link exists and is
  unsettled sets \<open>paid\<close> and returns the row; after that, whatever store operations come
  in between, every further \<open>mark_payment_as_paid\<close> of that token returns \<open>None\<close>; a
  settled or unknown token returns \<open>None\<close> and changes nothing; and no sequence of store
  operations ever resets the \<open>paid\<close> flag of a row or changes its token.
\<close>

theorem mark_payment_as_paid_once:
  "(\<forall>l. get_payment_link d token = Some l \<and> \<not> paid l \<longrightarrow>
      snd (mark_payment_as_paid d token) = Some (l\<lparr>paid := True\<rparr>) \<and>
      get_payment_link (fst (mark_payment_as_paid d token)) token = Some (l\<lparr>paid := True\<rparr>) \<and>
      (\<forall>ops. snd (mark_payment_as_paid (db_run ops (fst (mark_payment_as_paid d token))) token)
               = None)) \<and>
   (\<forall>l. get_payment_link d token = Some l \<and> paid l \<longrightarrow> mark_payment_as_paid d token = (d, None)) \<and>
   (get_payment_link d token = None \<longrightarrow> mark_payment_as_paid d token = (d, None)) \<and>
   (\<forall>ops i. i < length (payment_links d) \<and> paid (payment_links d ! i) \<longrightarrow>
      i < length (payment_links (db_run ops d)) \<and>
      unique_id (payment_links (db_run ops d) ! i) = unique_id (payment_links d ! i) \<and>
      paid (payment_links (db_run ops d) ! i))"
proof (intro conjI allI impI)
  fix l
  assume a: "get_payment_link d token = Some l \<and> \<not> paid l"
  then have f: "find (\<lambda>p. unique_id p = token) (payment_links d) = Some l" and np: "\<not> paid l"
    by (simp_all add: get_payment_link_def)
  have tok: "unique_id l = token"
    using f by (auto dest: find_Some_iff [THEN iffD1])
  show "snd (mark_payment_as_paid d token) = Some (l\<lparr>paid := True\<rparr>)"
    using f np by (simp add: mark_payment_as_paid_def)
  show "get_payment_link (fst (mark_payment_as_paid d token)) token = Some (l\<lparr>paid := True\<rparr>)"
    using f np tok by (simp add: mark_payment_as_paid_def get_payment_link_def find_update_first_same)
  have "first_settled token (payment_links (fst (mark_payment_as_paid d token)))"
    using f np by (simp add: mark_payment_as_paid_def first_settled_after_mark)
  then show "snd (mark_payment_as_paid (db_run ops (fst (mark_payment_as_paid d token))) token) = None" for ops
    by (simp add: first_settled_run first_settled_mark_none)
next
  fix l
  assume "get_payment_link d token = Some l \<and> paid l"
  then show "mark_payment_as_paid d token = (d, None)"
    by (simp add: get_payment_link_def mark_payment_as_paid_def)
next
  assume "get_payment_link d token = None"
  then show "mark_payment_as_paid d token = (d, None)"
    by (simp add: get_payment_link_def mark_payment_as_paid_def)
next
  fix ops i
  assume a: "i < length (payment_links d) \<and> paid (payment_links d ! i)"
  have g: "links_grow (payment_links d) (payment_links (db_run ops d))"
    by (rule links_grow_run)
  show "i < length (payment_links (db_run ops d))"
    using a g by (auto simp: links_grow_def)
  show "unique_id (payment_links (db_run ops d) ! i) = unique_id (payment_links d ! i)"
    using a g by (auto simp: links_grow_def)
  show "paid (payment_links (db_run ops d) ! i)"
    using a g by (auto simp: links_grow_def)
qed

theorem mark_payment_as_paid_once_witness:
  "get_payment_link example_links ''a1b2c3d4e5'' = Some (payment_links example_links ! 0) \<and>
   \<not> paid (payment_links example_links ! 0) \<and>
   snd (mark_payment_as_paid example_links ''a1b2c3d4e5'')
     = Some ((payment_links example_links ! 0)\<lparr>paid := True\<rparr>) \<and>
   snd (mark_payment_as_paid
          (db_run [CreatePaymentLink ''0123456789'' 3000 77 ''month'' 2500,
                   MarkPaymentAsPaid ''0123456789'']
             (fst (mark_payment_as_paid example_links ''a1b2c3d4e5''))) ''a1b2c3d4e5'') = None \<and>
   get_payment_link example_links ''ffffffffff'' = Some (payment_links example_links ! 1) \<and>
   paid (payment_links example_links ! 1) \<and>
   mark_payment_as_paid example_links ''ffffffffff'' = (example_links, None) \<and>
   get_payment_link example_links ''nosuchlink'' = None \<and>
   mark_payment_as_paid example_links ''nosuchlink'' = (example_links, None) \<and>
   (1::nat) < length (payment_links example_links) \<and>
   paid (payment_links (db_run [MarkPaymentAsPaid ''a1b2c3d4e5''] example_links) ! 1)"
proof -
  have g0: "get_payment_link example_links ''a1b2c3d4e5'' = Some (payment_links example_links ! 0)"
    by (simp add: example_links_def get_payment_link_def)
  have p0: "\<not> paid (payment_links example_links ! 0)"
    by (simp add: example_links_def)
  have g1: "get_payment_link example_links ''ffffffffff'' = Some (payment_links example_links ! 1)"
    by (simp add: example_links_def get_payment_link_def)
  have p1: "paid (payment_links example_links ! 1)"
    by (simp add: example_links_def)
  have g2: "get_payment_link example_links ''nosuchlink'' = None"
    by (simp add: example_links_def get_payment_link_def)
  have l1: "(1::nat) < length (payment_links example_links)"
    by (simp add: example_links_def)
  show ?thesis
    using mark_payment_as_paid_once [of example_links "''a1b2c3d4e5''"]
      mark_payment_as_paid_once [of example_links "''ffffffffff''"]
      mark_payment_as_paid_once [of example_links "''nosuchlink''"]
      g0 p0 g1 p1 g2 l1
    by blast
qed

subsection \<open>Subscriptions\<close>

lemma find_Some_split:
  "find P xs = Some s \<Longrightarrow>
   \<exists>ys zs. xs = ys @ s # zs \<and> (\<forall>y \<in> set ys. \<not> P y) \<and> P s \<and>
           (\<forall>f. update_first P f xs = ys @ f s # zs)"
proof (induction xs)
  case Nil
  then show ?case by simp
next
  case (Cons x xs)
  show ?case
  proof (cases "P x")
    case True
    with Cons.prems have "x = s" by simp
    with True have "x # xs = [] @ s # xs \<and> (\<forall>y \<in> set []. \<not> P y) \<and> P s \<and>
                    (\<forall>f. update_first P f (x # xs) = [] @ f s # xs)"
      by simp
    then show ?thesis by blast
  next
    case False
    with Cons.prems have "find P xs = Some s" by simp
    from Cons.IH [OF this] obtain ys zs where
      h: "xs = ys @ s # zs" "\<forall>y \<in> set ys. \<not> P y" "P s" "\<forall>f. update_first P f xs = ys @ f s # zs"
      by blast
    with False have "x # xs = (x # ys) @ s # zs \<and> (\<forall>y \<in> set (x # ys). \<not> P y) \<and> P s \<and>
                    (\<forall>f. update_first P f (x # xs) = (x # ys) @ f s # zs)"
      by simp
    then show ?thesis by blast
  qed
qed

lemma find_Some_index:
  assumes "find P xs = Some s"
  shows "\<exists>i < length xs. xs ! i = s \<and> P s \<and> (\<forall>k < i. \<not> P (xs ! k)) \<and>
                          (\<forall>f. update_first P f xs = xs[i := f s])"
proof -
  from find_Some_split [OF assms] obtain ys zs where
    h: "xs = ys @ s # zs" "\<forall>y \<in> set ys. \<not> P y" "P s" "\<forall>f. update_first P f xs = ys @ f s # zs"
    by blast
  have "length ys < length xs" using h(1) by simp
  moreover have "xs ! length ys = s" using h(1) by simp
  moreover have "\<forall>k < length ys. \<not> P (xs ! k)" using h(1,2) by (simp add: nth_append)
  moreover have "\<forall>f. update_first P f xs = xs[length ys := f s]" using h(1,4) by simp
  ultimately show ?thesis using h(3) by blast
qed

lemma timedelta_values:
  "timedelta_weeks 1 = 604800000000" "timedelta_weeks 2 = 1209600000000"
  "timedelta_days 31 = 2678400000000" "timedelta_days 7 = 604800000000"
  "timedelta_days 14 = 1209600000000" "timedelta_days 30 = 2592000000000"
  "timedelta_minutes 1 = 60000000"
  by (simp_all add: timedelta_weeks_def timedelta_days_def timedelta_minutes_def)

lemma create_subscription_renewal_raises:
  assumes "get_active_subscription d now_q uid = Some s"
  shows "create_subscription d now now_q uid sub_type amt pay_id = (d, Inl InvalidRequestError)"
  using assms by (simp add: create_subscription_def Let_def)

lemma admin_create_subscription_renewal_raises:
  assumes "find_user_by_username d uname = Some u"
    and "sub_type = ''week'' \<or> sub_type = ''two_weeks'' \<or> sub_type = ''month''"
    and "get_active_subscription d now_q (user_pk u) = Some s"
  shows "admin_create_subscription d now now_q token uname sub_type
           = (d, Inl InvalidRequestError)"
  using assms by (auto simp: admin_create_subscription_def Let_def)

text \<open>
  Claim C3. The claim says that \<open>create_subscription\<close>, called for a user with an active
  subscription, sets the end of the existing row to \<open>max now end_date\<close> plus the duration,
  adds the amount, replaces the payment id and returns a renewal. In the code the existing
  row comes from the session of \<open>get_active_subscription\<close>, which is closed when
  \<open>create_subscription\<close> assigns to the row: the commit stores nothing and the refresh
  raises \<open>InvalidRequestError\<close>. For a user whose subscription ends on day 7, a renewal
  on day 3 returns no subscription and leaves the store as it was.
\<close>

theorem paid_renewal_raises:
  "get_active_subscription example_ledger 259200000000 1 =
     Some \<lparr>user_id = 1, start_date = 0, end_date = 604800000000, subscription_type = ''week'',
           price_paid = 650, payment_id = ''pay1''\<rparr> \<and>
   create_subscription example_ledger 259200000000 259200000000 1 ''two_weeks'' 1300 ''pay2'' =
     (example_ledger, Inl InvalidRequestError)"
  by (simp add: example_ledger_def get_active_subscription_def create_subscription_def Let_def)

text \<open>
  Claim C4. The claim says that every renewal, paid or granted by the admin, stores the
  newly purchased plan kind in the existing row. For a user whose active row is of kind week,
  a renewal with two\_weeks raises \<open>InvalidRequestError\<close> in \<open>create_subscription\<close> and
  in \<open>admin_create_subscription\<close> alike, and the stored row keeps
  \<open>subscription_type = ''week''\<close>.
\<close>

theorem renewal_leaves_subscription_type:
  "snd (create_subscription example_ledger 259200000000 259200000000 1 ''two_weeks'' 1300
          ''pay2'') = Inl InvalidRequestError \<and>
   map subscription_type
     (subscriptions (fst (create_subscription example_ledger 259200000000 259200000000 1
                            ''two_weeks'' 1300 ''pay2''))) = [''week''] \<and>
   snd (admin_create_subscription example_ledger 259200000000 259200000000 ''0123456789''
          ''alice'' ''two_weeks'') = Inl InvalidRequestError \<and>
   map subscription_type
     (subscriptions (fst (admin_create_subscription example_ledger 259200000000 259200000000
                            ''0123456789'' ''alice'' ''two_weeks''))) = [''week'']"
  by (simp add: example_ledger_def get_active_subscription_def create_subscription_def
        admin_create_subscription_def find_user_by_username_def sql_lower_def Let_def)

text \<open>
  Claim C5. The claim says that a plan kind outside week, two\_weeks and month fails and
  mutates nothing. \<open>create_subscription\<close> with the kind year, for a user without an active
  subscription, does not fail: it adds a row that lasts one week.
\<close>

theorem create_subscription_unknown_plan_counterexample:
  "''year'' \<noteq> ''week'' \<and> ''year'' \<noteq> ''two_weeks'' \<and> ''year'' \<noteq> ''month'' \<and>
   get_active_subscription example_ledger 259200000000 2 = None \<and>
   create_subscription example_ledger 259200000000 259200000000 2 ''year'' 9000 ''pay9'' =
     (example_ledger\<lparr>subscriptions := subscriptions example_ledger @
        [\<lparr>user_id = 2, start_date = 259200000000, end_date = 864000000000,
          subscription_type = ''year'', price_paid = 9000, payment_id = ''pay9''\<rparr>]\<rparr>,
      Inr (\<lparr>user_id = 2, start_date = 259200000000, end_date = 864000000000,
             subscription_type = ''year'', price_paid = 9000, payment_id = ''pay9''\<rparr>, False)) \<and>
   fst (create_subscription example_ledger 259200000000 259200000000 2 ''year'' 9000 ''pay9'')
     \<noteq> example_ledger"
  by (simp add: example_ledger_def get_active_subscription_def create_subscription_def
        timedelta_values Let_def)

text \<open>
  Claim C5, as amended. For a plan kind outside week, two\_weeks and month,
  \<open>admin_create_subscription\<close> returns \<open>None\<close> and leaves the store unchanged, while
  \<open>create_subscription\<close>, for a user without an active subscription, falls back to a
  duration of one week: it adds a row of the given kind that ends at \<open>now\<close> plus 7 days and
  returns it as a new subscription.
\<close>

theorem unknown_plan_kind:
  assumes "sub_type \<noteq> ''week''" and "sub_type \<noteq> ''two_weeks''" and "sub_type \<noteq> ''month''"
  shows "admin_create_subscription d now now_q token uname sub_type = (d, Inr None) \<and>
         (get_active_subscription d now_q uid = None \<longrightarrow>
            create_subscription d now now_q uid sub_type amt pay_id =
              (d\<lparr>subscriptions := subscriptions d @
                    [\<lparr>user_id = uid, start_date = now, end_date = now + 7 * 86400000000,
                      subscription_type = sub_type, price_paid = amt, payment_id = pay_id\<rparr>]\<rparr>,
               Inr (\<lparr>user_id = uid, start_date = now, end_date = now + 7 * 86400000000,
                      subscription_type = sub_type, price_paid = amt, payment_id = pay_id\<rparr>,
                    False)))"
proof (intro conjI impI)
  show "admin_create_subscription d now now_q token uname sub_type = (d, Inr None)"
    using assms by (simp add: admin_create_subscription_def split: option.splits)
next
  assume "get_active_subscription d now_q uid = None"
  then show "create_subscription d now now_q uid sub_type amt pay_id =
              (d\<lparr>subscriptions := subscriptions d @
                    [\<lparr>user_id = uid, start_date = now, end_date = now + 7 * 86400000000,
                      subscription_type = sub_type, price_paid = amt, payment_id = pay_id\<rparr>]\<rparr>,
               Inr (\<lparr>user_id = uid, start_date = now, end_date = now + 7 * 86400000000,
                      subscription_type = sub_type, price_paid = amt, payment_id = pay_id\<rparr>,
                    False))"
    using assms by (simp add: create_subscription_def Let_def timedelta_values)
qed

theorem unknown_plan_kind_witness:
  "''year'' \<noteq> ''week'' \<and> ''year'' \<noteq> ''two_weeks'' \<and> ''year'' \<noteq> ''month'' \<and>
   admin_create_subscription example_ledger 259200000000 259200000000 ''0123456789'' ''alice''
     ''year'' = (example_ledger, Inr None) \<and>
   get_active_subscription example_ledger 259200000000 2 = None \<and>
   create_subscription example_ledger 259200000000 259200000000 2 ''year'' 9000 ''pay9'' =
     (example_ledger\<lparr>subscriptions := subscriptions example_ledger @
        [\<lparr>user_id = 2, start_date = 259200000000, end_date = 259200000000 + 7 * 86400000000,
          subscription_type = ''year'', price_paid = 9000, payment_id = ''pay9''\<rparr>]\<rparr>,
      Inr (\<lparr>user_id = 2, start_date = 259200000000,
             end_date = 259200000000 + 7 * 86400000000,
             subscription_type = ''year'', price_paid = 9000, payment_id = ''pay9''\<rparr>, False))"
proof -
  have n: "''year'' \<noteq> ''week''" "''year'' \<noteq> ''two_weeks''" "''year'' \<noteq> ''month''"
    by simp_all
  have g: "get_active_subscription example_ledger 259200000000 2 = None"
    by (simp add: example_ledger_def get_active_subscription_def)
  note t = unknown_plan_kind [OF n, of example_ledger 259200000000 259200000000
             "''0123456789''" "''alice''" 2 9000 "''pay9''"]
  show ?thesis
    using n g t by blast
qed

lemma one_active_per_user_iff:
  "one_active_per_user d t \<longleftrightarrow> (\<forall>uid. length (active_rows d t uid) \<le> 1)"
proof
  assume a: "one_active_per_user d t"
  show "\<forall>uid. length (active_rows d t uid) \<le> 1"
  proof
    fix uid
    show "length (active_rows d t uid) \<le> 1"
    proof (cases "\<exists>s \<in> set (subscriptions d). user_id s = uid")
      case True
      with a show ?thesis
        by (auto simp: one_active_per_user_def list_all_iff)
    next
      case False
      then have "active_rows d t uid = []"
        by (auto simp: active_rows_def filter_empty_conv)
      then show ?thesis by simp
    qed
  qed
next
  assume "\<forall>uid. length (active_rows d t uid) \<le> 1"
  then show "one_active_per_user d t"
    by (simp add: one_active_per_user_def list_all_iff)
qed

lemma length_filter_mono:
  "(\<And>x. x \<in> set xs \<Longrightarrow> P x \<Longrightarrow> Q x) \<Longrightarrow> length (filter P xs) \<le> length (filter Q xs)"
  by (induction xs) auto

lemma one_active_per_user_later:
  assumes "one_active_per_user d t" and "t \<le> t'"
  shows "one_active_per_user d t'"
  unfolding one_active_per_user_iff
proof
  fix uid
  have "length (active_rows d t' uid) \<le> length (active_rows d t uid)"
    unfolding active_rows_def using assms(2) by (intro length_filter_mono) auto
  moreover have "length (active_rows d t uid) \<le> 1"
    using assms(1) by (simp add: one_active_per_user_iff)
  ultimately show "length (active_rows d t' uid) \<le> 1" by linarith
qed

lemma one_active_per_user_append:
  assumes "one_active_per_user d q"
    and "find (\<lambda>s. user_id s = user_id r \<and> end_date s \<ge> q) (subscriptions d) = None"
  shows "one_active_per_user (d\<lparr>subscriptions := subscriptions d @ [r]\<rparr>) q"
  unfolding one_active_per_user_iff
proof
  fix uid
  show "length (active_rows (d\<lparr>subscriptions := subscriptions d @ [r]\<rparr>) q uid) \<le> 1"
  proof (cases "uid = user_id r")
    case True
    have "filter (\<lambda>s. user_id s = user_id r \<and> end_date s \<ge> q) (subscriptions d) = []"
      using assms(2) by (auto simp: find_None_iff filter_empty_conv)
    with True show ?thesis by (simp add: active_rows_def)
  next
    case False
    have "length (active_rows d q uid) \<le> 1"
      using assms(1) by (simp add: one_active_per_user_iff)
    with False show ?thesis by (simp add: active_rows_def)
  qed
qed

lemma one_active_per_user_update:
  assumes inv: "one_active_per_user d t" and le: "t \<le> q"
    and f: "find (\<lambda>s. user_id s = uid \<and> end_date s \<ge> q) (subscriptions d) = Some s"
    and u: "user_id (g s) = user_id s"
  shows "one_active_per_user
           (d\<lparr>subscriptions :=
                update_first (\<lambda>s. user_id s = uid \<and> end_date s \<ge> q) g (subscriptions d)\<rparr>) t"
  unfolding one_active_per_user_iff
proof
  fix v
  let ?P = "\<lambda>s. user_id s = uid \<and> end_date s \<ge> q"
  let ?Q = "\<lambda>s. user_id s = v \<and> end_date s \<ge> t"
  from find_Some_split [OF f] obtain ys zs where
    h: "subscriptions d = ys @ s # zs" "?P s" "\<forall>f. update_first ?P f (subscriptions d) = ys @ f s # zs"
    by blast
  have b: "length (filter ?Q ys) + (if ?Q s then 1 else 0) + length (filter ?Q zs) \<le> 1"
    using inv [unfolded one_active_per_user_iff, rule_format, of v] h(1)
    by (auto simp: active_rows_def split: if_splits)
  have a: "length (active_rows
             (d\<lparr>subscriptions := update_first ?P g (subscriptions d)\<rparr>) t v)
           = length (filter ?Q ys) + (if ?Q (g s) then 1 else 0) + length (filter ?Q zs)"
    using h(3) by (simp add: active_rows_def)
  show "length (active_rows
             (d\<lparr>subscriptions := update_first ?P g (subscriptions d)\<rparr>) t v) \<le> 1"
  proof (cases "v = uid")
    case True
    then have "?Q s" using h(2) le by simp
    with b have "length (filter ?Q ys) = 0" "length (filter ?Q zs) = 0" by simp_all
    with a show ?thesis by simp
  next
    case False
    then have "\<not> ?Q (g s)" "\<not> ?Q s" using h(2) u by simp_all
    with a b show ?thesis by simp
  qed
qed

lemma one_active_per_user_create_subscription:
  assumes "one_active_per_user d t" and "t \<le> now_q"
  shows "one_active_per_user (fst (create_subscription d now now_q uid sub_type amt pay_id)) now_q"
proof -
  have inv: "one_active_per_user d now_q"
    using assms by (rule one_active_per_user_later)
  show ?thesis
  proof (cases "get_active_subscription d now_q uid")
    case None
    with inv show ?thesis
      by (simp add: create_subscription_def Let_def get_active_subscription_def
            one_active_per_user_append)
  next
    case (Some s)
    with inv show ?thesis
      by (simp add: create_subscription_renewal_raises)
  qed
qed

lemma one_active_per_user_admin_create_subscription:
  assumes "one_active_per_user d t" and "t \<le> now_q"
  shows "one_active_per_user
           (fst (admin_create_subscription d now now_q token uname sub_type)) now_q"
proof -
  have inv: "one_active_per_user d now_q"
    using assms by (rule one_active_per_user_later)
  show ?thesis
  proof (cases "find_user_by_username d uname")
    case None
    with inv show ?thesis by (simp add: admin_create_subscription_def)
  next
    case (Some u)
    show ?thesis
    proof (cases "get_active_subscription d now_q (user_pk u)")
      case None
      with Some inv show ?thesis
        by (simp add: admin_create_subscription_def Let_def get_active_subscription_def
              one_active_per_user_append)
    next
      case s: (Some s)
      with Some inv show ?thesis
        by (simp add: admin_create_subscription_def Let_def)
    qed
  qed
qed

lemma one_active_per_user_revoke_subscription:
  assumes "one_active_per_user d t" and "t \<le> now_q"
  shows "one_active_per_user (fst (revoke_subscription d now_q now_set uname)) now_q"
proof -
  have inv: "one_active_per_user d now_q"
    using assms by (rule one_active_per_user_later)
  show ?thesis
  proof (cases "find_user_by_username d uname")
    case None
    with inv show ?thesis by (simp add: revoke_subscription_def)
  next
    case (Some u)
    show ?thesis
    proof (cases "find (\<lambda>s. user_id s = user_pk u \<and> end_date s \<ge> now_q) (subscriptions d)")
      case None
      with Some inv show ?thesis by (simp add: revoke_subscription_def)
    next
      case s: (Some s)
      show ?thesis
        using Some s inv
        by (simp add: revoke_subscription_def one_active_per_user_update [OF _ _ s])
    qed
  qed
qed

lemma subscriptions_other_ops [simp]:
  "subscriptions (fst (mark_payment_as_paid d token)) = subscriptions d"
  "subscriptions (fst (add_match d h a l mt o1 ox o2 url)) = subscriptions d"
  "subscriptions (mark_match_as_notified d mid) = subscriptions d"
  "create_payment_link d token now tg st amt = Inr (d', pl) \<Longrightarrow> subscriptions d' = subscriptions d"
  by (auto simp: mark_payment_as_paid_def add_match_def mark_match_as_notified_def
        create_payment_link_def Let_def split: option.splits if_splits)

lemma one_active_per_user_cong:
  "subscriptions d' = subscriptions d \<Longrightarrow> one_active_per_user d' t = one_active_per_user d t"
  by (simp add: one_active_per_user_def active_rows_def)

lemma one_active_per_user_step:
  assumes "one_active_per_user d t" and "chronological t [op]"
  shows "one_active_per_user (db_step op d) (last_clock t [op])"
proof (cases op)
  case (CreatePaymentLink token now tg st amt)
  then show ?thesis using assms(1)
    by (auto split: sum.splits intro: one_active_per_user_cong [THEN iffD2])
next
  case (MarkPaymentAsPaid token)
  then show ?thesis using assms(1)
    by (auto intro: one_active_per_user_cong [THEN iffD2])
next
  case (CreateSubscription now now_q uid st amt pid)
  then show ?thesis using assms
    by (simp add: one_active_per_user_create_subscription)
next
  case (AdminCreateSubscription now now_q token uname st)
  then show ?thesis using assms
    by (simp add: one_active_per_user_admin_create_subscription)
next
  case (RevokeSubscription now_q now_set uname)
  then show ?thesis using assms
    by (simp add: one_active_per_user_revoke_subscription)
next
  case (AddMatch h a l mt o1 ox o2 url)
  then show ?thesis using assms(1)
    by (auto intro: one_active_per_user_cong [THEN iffD2])
next
  case (MarkMatchAsNotified mid)
  then show ?thesis using assms(1)
    by (auto intro: one_active_per_user_cong [THEN iffD2])
qed

lemma one_active_per_user_run:
  "one_active_per_user d t \<Longrightarrow> chronological t ops \<Longrightarrow>
   one_active_per_user (db_run ops d) (last_clock t ops)"
  unfolding db_run_def
proof (induction ops arbitrary: d t)
  case Nil
  then show ?case by simp
next
  case (Cons op ops)
  have c: "chronological t [op]"
    using Cons.prems(2) by (simp split: option.splits)
  have s: "one_active_per_user (db_step op d) (last_clock t [op])"
    using Cons.prems(1) c by (rule one_active_per_user_step)
  have r: "chronological (last_clock t [op]) ops"
    using Cons.prems(2) by (simp split: option.splits)
  have "one_active_per_user (fold db_step ops (db_step op d)) (last_clock (last_clock t [op]) ops)"
    using s r by (rule Cons.IH)
  moreover have "last_clock (last_clock t [op]) ops = last_clock t (op # ops)"
    by (simp split: option.splits)
  ultimately show ?case by simp
qed

lemma one_active_per_user_empty: "subscriptions d = [] \<Longrightarrow> one_active_per_user d t"
  by (simp add: one_active_per_user_def)

lemma get_active_subscription_unique:
  assumes "one_active_per_user d q" and "get_active_subscription d q uid = Some s"
  shows "user_id s = uid \<and> end_date s \<ge> q \<and> active_rows d q uid = [s]"
proof -
  let ?P = "\<lambda>s. user_id s = uid \<and> end_date s \<ge> q"
  have f: "find ?P (subscriptions d) = Some s"
    using assms(2) by (simp add: get_active_subscription_def)
  from find_Some_split [OF f] obtain ys zs where
    h: "subscriptions d = ys @ s # zs" "\<forall>y \<in> set ys. \<not> ?P y" "?P s"
    by blast
  have ys: "filter ?P ys = []"
    using h(2) by (auto simp: filter_empty_conv)
  have "length (filter ?P (subscriptions d)) \<le> 1"
    using assms(1) by (simp add: one_active_per_user_iff active_rows_def)
  then have "filter ?P zs = []"
    using h(1,3) ys by simp
  then have "active_rows d q uid = [s]"
    using h(1,3) ys by (simp add: active_rows_def)
  with h(3) show ?thesis by simp
qed

text \<open>
  Claim C6. The claim says that every user has at most one row with \<open>end_date \<ge> now\<close>,
  that a row is created only when the user has no such row, and that otherwise the existing
  row is extended in place. The invariant is kept (\<open>one_active_per_user_step\<close>,
  \<open>one_active_per_user_run\<close>, \<open>get_active_subscription_unique\<close>) and no second row is
  created, but the existing row is not extended: a purchase and an admin grant for a user
  whose subscription ends on day 7 both leave the store as it was, with the row still ending
  on day 7.
\<close>

theorem renewal_not_extended_in_place:
  "one_active_per_user example_ledger 259200000000 \<and>
   active_rows example_ledger 259200000000 1 =
     [\<lparr>user_id = 1, start_date = 0, end_date = 604800000000, subscription_type = ''week'',
       price_paid = 650, payment_id = ''pay1''\<rparr>] \<and>
   db_run [CreateSubscription 259200000000 259200000000 1 ''month'' 2500 ''pay3'',
           AdminCreateSubscription 345600000000 345600000000 ''0123456789'' ''alice'' ''week'']
     example_ledger = example_ledger \<and>
   map end_date
     (subscriptions
        (db_run [CreateSubscription 259200000000 259200000000 1 ''month'' 2500 ''pay3'',
                 AdminCreateSubscription 345600000000 345600000000 ''0123456789'' ''alice''
                   ''week''] example_ledger)) = [604800000000]"
  by (simp add: db_run_def one_active_per_user_def active_rows_def example_ledger_def
        get_active_subscription_def create_subscription_def admin_create_subscription_def
        find_user_by_username_def sql_lower_def Let_def)

text \<open>
  Claim C8. In a store with at most one active row per user (the invariant of claim C6),
  and with a clock that does not run backwards, \<open>revoke_subscription\<close> for a username
  that resolves to a user with an active row sets the end of that row to \<open>now_set\<close> minus
  one minute, which is before \<open>now_set\<close>, returns the user's telegram id, and a following
  \<open>get_active_subscription\<close> for that user returns \<open>None\<close>; for a user without an
  active row it returns \<open>None\<close> and changes nothing.
\<close>

theorem revoke_subscription_immediate:
  assumes "one_active_per_user d now_q" and "now_q \<le> now_set" and "now_set \<le> now_after"
    and "find_user_by_username d uname = Some u"
  shows "(\<forall>s. get_active_subscription d now_q (user_pk u) = Some s \<longrightarrow>
            (\<exists>i < length (subscriptions d). subscriptions d ! i = s \<and>
               revoke_subscription d now_q now_set uname =
                 (d\<lparr>subscriptions :=
                      (subscriptions d)[i := s\<lparr>end_date := now_set - 60000000\<rparr>]\<rparr>,
                  Some (telegram_id u)) \<and>
               now_set - 60000000 < now_set \<and>
               get_active_subscription (fst (revoke_subscription d now_q now_set uname))
                 now_after (user_pk u) = None)) \<and>
         (get_active_subscription d now_q (user_pk u) = None \<longrightarrow>
            revoke_subscription d now_q now_set uname = (d, None))"
proof (intro conjI allI impI)
  fix s
  assume a: "get_active_subscription d now_q (user_pk u) = Some s"
  let ?P = "\<lambda>s. user_id s = user_pk u \<and> end_date s \<ge> now_q"
  let ?A = "\<lambda>s. user_id s = user_pk u \<and> end_date s \<ge> now_after"
  let ?s' = "s\<lparr>end_date := now_set - 60000000\<rparr>"
  have f: "find ?P (subscriptions d) = Some s"
    using a by (simp add: get_active_subscription_def)
  from find_Some_split [OF f] obtain ys zs where
    h: "subscriptions d = ys @ s # zs" "\<forall>y \<in> set ys. \<not> ?P y" "?P s"
       "\<forall>f. update_first ?P f (subscriptions d) = ys @ f s # zs"
    by blast
  from find_Some_index [OF f] obtain i where
    i: "i < length (subscriptions d)" "subscriptions d ! i = s"
       "\<forall>f. update_first ?P f (subscriptions d) = (subscriptions d)[i := f s]"
    by blast
  have r: "revoke_subscription d now_q now_set uname =
             (d\<lparr>subscriptions := (subscriptions d)[i := ?s']\<rparr>, Some (telegram_id u))"
    using assms(4) f i(3) by (simp add: revoke_subscription_def timedelta_values)
  have only: "active_rows d now_q (user_pk u) = [s]"
    using get_active_subscription_unique [OF assms(1) a] by simp
  have ry: "filter ?P ys = []"
    using h(2) by (auto simp: filter_empty_conv)
  have rz: "filter ?P zs = []"
    using only h(1,3) ry by (simp add: active_rows_def)
  note rest = ry rz
  have "\<forall>x \<in> set (ys @ ?s' # zs). \<not> ?A x"
  proof
    fix x
    assume "x \<in> set (ys @ ?s' # zs)"
    then consider "x \<in> set ys" | "x = ?s'" | "x \<in> set zs" by auto
    then show "\<not> ?A x"
    proof cases
      case 1
      with rest(1) have "\<not> ?P x" by (simp add: filter_empty_conv)
      with assms(2,3) show ?thesis by auto
    next
      case 2
      with assms(3) show ?thesis by simp
    next
      case 3
      with rest(2) have "\<not> ?P x" by (simp add: filter_empty_conv)
      with assms(2,3) show ?thesis by auto
    qed
  qed
  then have n: "find ?A (ys @ ?s' # zs) = None"
    by (simp only: find_None_iff) blast
  have g: "get_active_subscription (fst (revoke_subscription d now_q now_set uname))
             now_after (user_pk u) = None"
    using assms(4) f h(4) n by (simp add: revoke_subscription_def get_active_subscription_def
        timedelta_values)
  show "\<exists>i < length (subscriptions d). subscriptions d ! i = s \<and>
               revoke_subscription d now_q now_set uname =
                 (d\<lparr>subscriptions :=
                      (subscriptions d)[i := s\<lparr>end_date := now_set - 60000000\<rparr>]\<rparr>,
                  Some (telegram_id u)) \<and>
               now_set - 60000000 < now_set \<and>
               get_active_subscription (fst (revoke_subscription d now_q now_set uname))
                 now_after (user_pk u) = None"
    using i(1,2) r g by auto
next
  assume "get_active_subscription d now_q (user_pk u) = None"
  then show "revoke_subscription d now_q now_set uname = (d, None)"
    using assms(4) by (simp add: revoke_subscription_def get_active_subscription_def)
qed

theorem revoke_subscription_immediate_witness:
  "one_active_per_user example_ledger 345600000000 \<and>
   find_user_by_username example_ledger ''ALICE'' = Some (users example_ledger ! 0) \<and>
   get_active_subscription example_ledger 345600000000 1 = Some (subscriptions example_ledger ! 0) \<and>
   revoke_subscription example_ledger 345600000000 345600000001 ''ALICE'' =
     (example_ledger\<lparr>subscriptions :=
        [\<lparr>user_id = 1, start_date = 0, end_date = 345540000001, subscription_type = ''week'',
          price_paid = 650, payment_id = ''pay1''\<rparr>]\<rparr>, Some 5001) \<and>
   get_active_subscription
     (fst (revoke_subscription example_ledger 345600000000 345600000001 ''ALICE''))
     345600000002 1 = None \<and>
   find_user_by_username example_ledger ''Bob'' = Some (users example_ledger ! 1) \<and>
   get_active_subscription example_ledger 345600000000 2 = None \<and>
   revoke_subscription example_ledger 345600000000 345600000001 ''Bob'' = (example_ledger, None)"
proof -
  have i: "one_active_per_user example_ledger 345600000000"
    by (simp add: one_active_per_user_def active_rows_def example_ledger_def)
  have t: "(345600000000::int) \<le> 345600000001" "(345600000001::int) \<le> 345600000002"
    by simp_all
  have ua: "find_user_by_username example_ledger ''ALICE'' = Some (users example_ledger ! 0)"
    by (simp add: example_ledger_def find_user_by_username_def sql_lower_def)
  have ub: "find_user_by_username example_ledger ''Bob'' = Some (users example_ledger ! 1)"
    by (simp add: example_ledger_def find_user_by_username_def sql_lower_def)
  have pa: "user_pk (users example_ledger ! 0) = 1"
    by (simp add: example_ledger_def)
  have pb: "user_pk (users example_ledger ! 1) = 2"
    by (simp add: example_ledger_def)
  have ga: "get_active_subscription example_ledger 345600000000 1
              = Some (subscriptions example_ledger ! 0)"
    by (simp add: example_ledger_def get_active_subscription_def)
  have gb: "get_active_subscription example_ledger 345600000000 2 = None"
    by (simp add: example_ledger_def get_active_subscription_def)
  note ta = revoke_subscription_immediate [OF i t ua, unfolded pa]
  note tb = revoke_subscription_immediate [OF i t ub, unfolded pb]
  have na: "get_active_subscription
     (fst (revoke_subscription example_ledger 345600000000 345600000001 ''ALICE''))
     345600000002 1 = None"
    using ta ga by blast
  have ra: "revoke_subscription example_ledger 345600000000 345600000001 ''ALICE'' =
     (example_ledger\<lparr>subscriptions :=
        [\<lparr>user_id = 1, start_date = 0, end_date = 345540000001, subscription_type = ''week'',
          price_paid = 650, payment_id = ''pay1''\<rparr>]\<rparr>, Some 5001)"
    by (simp add: revoke_subscription_def find_user_by_username_def sql_lower_def
          example_ledger_def timedelta_values)
  have rb: "revoke_subscription example_ledger 345600000000 345600000001 ''Bob''
              = (example_ledger, None)"
    using tb gb by blast
  show ?thesis
    using i ua ga ra na ub gb rb by blast
qed

subsection \<open>Persisted matches\<close>

lemma next_match_pk_greater: "m \<in> set rows \<Longrightarrow> match_pk m < next_match_pk rows"
  unfolding next_match_pk_def by (induction rows) auto

lemma next_match_pk_append:
  "next_match_pk rows \<le> next_match_pk (rows @ [m])"
  unfolding next_match_pk_def by (induction rows) auto

lemma next_match_pk_update:
  "next_match_pk (update_first P (\<lambda>m. m\<lparr>notification_sent := True\<rparr>) rows) = next_match_pk rows"
  unfolding next_match_pk_def by (induction rows) auto

lemma list_all_notified_update:
  "list_all (\<lambda>m. match_pk m = mid \<longrightarrow> notification_sent m) rows \<Longrightarrow>
   list_all (\<lambda>m. match_pk m = mid \<longrightarrow> notification_sent m)
     (update_first P (\<lambda>m. m\<lparr>notification_sent := True\<rparr>) rows)"
  by (induction rows) auto

lemma list_all_notified_mark:
  "distinct (map match_pk rows) \<Longrightarrow>
   list_all (\<lambda>m. match_pk m = mid \<longrightarrow> notification_sent m)
     (update_first (\<lambda>m. match_pk m = mid) (\<lambda>m. m\<lparr>notification_sent := True\<rparr>) rows)"
  by (induction rows) (auto simp: list_all_iff image_iff)

lemma notified_for_good_mark:
  assumes "distinct (map match_pk (match_rows d))"
    and "find (\<lambda>m. match_pk m = mid) (match_rows d) = Some m"
  shows "notified_for_good mid (match_rows (mark_match_as_notified d mid))"
proof -
  have "m \<in> set (match_rows d)" "match_pk m = mid"
    using assms(2) by (auto simp: find_Some_iff)
  then have "mid < next_match_pk (match_rows d)"
    using next_match_pk_greater by blast
  then show ?thesis
    using assms by (simp add: notified_for_good_def mark_match_as_notified_def
        list_all_notified_mark next_match_pk_update)
qed

lemma match_rows_mark_payment_as_paid [simp]:
  "match_rows (fst (mark_payment_as_paid d token)) = match_rows d"
  by (simp add: mark_payment_as_paid_def split: option.splits)

lemma match_rows_create_subscription [simp]:
  "match_rows (fst (create_subscription d now now_q uid sub_type amt pay_id)) = match_rows d"
  by (simp add: create_subscription_def Let_def split: option.splits)

lemma match_rows_admin_create_subscription [simp]:
  "match_rows (fst (admin_create_subscription d now now_q tok uname sub_type)) = match_rows d"
  by (simp add: admin_create_subscription_def Let_def split: option.splits)

lemma match_rows_revoke_subscription [simp]:
  "match_rows (fst (revoke_subscription d now_q now_set uname)) = match_rows d"
  by (simp add: revoke_subscription_def split: option.splits)

lemma match_rows_create_payment_link:
  "create_payment_link d token now tg st amt = Inr (d', pl) \<Longrightarrow> match_rows d' = match_rows d"
  by (auto simp: create_payment_link_def Let_def split: if_splits)

lemma notified_for_good_step:
  assumes "notified_for_good mid (match_rows d)"
  shows "notified_for_good mid (match_rows (db_step op d))"
proof (cases op)
  case (AddMatch home away league mtime o1 ox o2 url)
  have "mid < next_match_pk (match_rows d)"
    using assms by (simp add: notified_for_good_def)
  moreover have "next_match_pk (match_rows d)
                   \<le> next_match_pk (match_rows d @ [\<lparr>match_pk = next_match_pk (match_rows d),
                        home_team = home, away_team = away, competition = league,
                        match_time = mtime, odds_1 = o1, odds_x = ox, odds_2 = o2,
                        notification_sent = False, match_url = url\<rparr>])"
    by (rule next_match_pk_append)
  ultimately show ?thesis
    using assms AddMatch by (simp add: notified_for_good_def add_match_def Let_def)
next
  case (MarkMatchAsNotified other)
  then show ?thesis
    using assms
    by (simp add: notified_for_good_def mark_match_as_notified_def list_all_notified_update
          next_match_pk_update split: option.splits)
next
  case (CreatePaymentLink token now tg st amt)
  show ?thesis
  proof (cases "create_payment_link d token now tg st amt")
    case (Inl e)
    with CreatePaymentLink assms show ?thesis by simp
  next
    case (Inr r)
    obtain d' pl where r: "r = (d', pl)" by (cases r)
    with Inr have "match_rows d' = match_rows d"
      by (simp add: match_rows_create_payment_link)
    with CreatePaymentLink Inr r assms show ?thesis by simp
  qed
next
  case (MarkPaymentAsPaid token)
  with assms show ?thesis by simp
next
  case (CreateSubscription now now_q uid sub_type amt pay_id)
  with assms show ?thesis by simp
next
  case (AdminCreateSubscription now now_q tok uname sub_type)
  with assms show ?thesis by simp
next
  case (RevokeSubscription now_q now_set uname)
  with assms show ?thesis by simp
qed

lemma notified_for_good_run:
  "notified_for_good mid (match_rows d) \<Longrightarrow> notified_for_good mid (match_rows (db_run ops d))"
  unfolding db_run_def by (induction ops arbitrary: d) (simp_all add: notified_for_good_step)

lemma update_first_twice:
  "(\<And>x. P (f x) = P x) \<Longrightarrow> (\<And>x. f (f x) = f x) \<Longrightarrow>
   update_first P f (update_first P f xs) = update_first P f xs"
  by (induction xs) auto

lemma find_update_first_None:
  "(\<And>x. P (f x) = P x) \<Longrightarrow> (find P (update_first P f xs) = None) = (find P xs = None)"
  by (induction xs) auto

text \<open>
  The persisted path: once \<open>DatabaseService.mark_match_as_notified\<close> has found the row of
  a match, no sequence of store operations brings that match back into the result of
  \<open>get_matches_with_target_odds\<close>, and marking again changes nothing.
\<close>

lemma db_mark_match_as_notified_excludes:
  assumes "distinct (map match_pk (match_rows d))"
    and "find (\<lambda>m. match_pk m = mid) (match_rows d) = Some m"
  shows "mid \<notin> match_pk ` set (get_matches_with_target_odds
                                  (db_run ops (mark_match_as_notified d mid)) now1 now2)"
proof -
  have "notified_for_good mid (match_rows (db_run ops (mark_match_as_notified d mid)))"
    using assms by (intro notified_for_good_run notified_for_good_mark)
  then show ?thesis
    by (auto simp: notified_for_good_def get_matches_with_target_odds_def list_all_iff)
qed

lemma db_mark_match_as_notified_idem:
  "mark_match_as_notified (mark_match_as_notified d mid) mid = mark_match_as_notified d mid"
proof (cases "find (\<lambda>m. match_pk m = mid) (match_rows d)")
  case None
  then show ?thesis by (simp add: mark_match_as_notified_def)
next
  case (Some m)
  let ?P = "\<lambda>m. match_pk m = mid"
  let ?f = "\<lambda>m. m\<lparr>notification_sent := True\<rparr>"
  have n: "(find ?P (update_first ?P ?f (match_rows d)) = None) = (find ?P (match_rows d) = None)"
    by (rule find_update_first_None) simp
  have t: "update_first ?P ?f (update_first ?P ?f (match_rows d)) = update_first ?P ?f (match_rows d)"
    by (rule update_first_twice) simp_all
  from n Some obtain m' where m': "find ?P (update_first ?P ?f (match_rows d)) = Some m'"
    by (cases "find ?P (update_first ?P ?f (match_rows d))") simp_all
  show ?thesis
    using Some m' t by (simp add: mark_match_as_notified_def)
qed

lemma map_match_pk_update_first:
  "map match_pk (update_first P (\<lambda>m. m\<lparr>notification_sent := True\<rparr>) rows) = map match_pk rows"
  by (induction rows) auto

text \<open>The primary keys stay distinct, whatever the store does.\<close>

lemma distinct_match_pk_step:
  assumes "distinct (map match_pk (match_rows d))"
  shows "distinct (map match_pk (match_rows (db_step op d)))"
proof (cases op)
  case (AddMatch home away league mtime o1 ox o2 url)
  have "next_match_pk (match_rows d) \<notin> match_pk ` set (match_rows d)"
    using next_match_pk_greater [of _ "match_rows d"] by fastforce
  with assms AddMatch show ?thesis
    by (simp add: add_match_def Let_def)
next
  case (MarkMatchAsNotified other)
  with assms show ?thesis
    by (simp add: mark_match_as_notified_def map_match_pk_update_first split: option.splits)
next
  case (CreatePaymentLink token now tg st amt)
  show ?thesis
  proof (cases "create_payment_link d token now tg st amt")
    case (Inl e)
    with CreatePaymentLink assms show ?thesis by simp
  next
    case (Inr r)
    obtain d' pl where r: "r = (d', pl)" by (cases r)
    with Inr have "match_rows d' = match_rows d"
      by (simp add: match_rows_create_payment_link)
    with CreatePaymentLink Inr r assms show ?thesis by simp
  qed
next
  case (MarkPaymentAsPaid token)
  with assms show ?thesis by simp
next
  case (CreateSubscription now now_q uid sub_type amt pay_id)
  with assms show ?thesis by simp
next
  case (AdminCreateSubscription now now_q tok uname sub_type)
  with assms show ?thesis by simp
next
  case (RevokeSubscription now_q now_set uname)
  with assms show ?thesis by simp
qed

lemma distinct_match_pk_run:
  "distinct (map match_pk (match_rows d)) \<Longrightarrow>
   distinct (map match_pk (match_rows (db_run ops d)))"
  unfolding db_run_def by (induction ops arbitrary: d) (simp_all add: distinct_match_pk_step)

text \<open>
  Claim C1. In a table of persisted matches, whose primary keys are distinct, once
  \<open>mark_match_as_notified\<close> has found the row of a match it has set the notified flag of
  that row; after that, whatever store operations follow and whenever the query runs, the
  match is not in the result of \<open>get_matches_with_target_odds\<close>; and marking the same
  match again changes nothing.
\<close>

theorem notified_match_excluded_for_good:
  assumes "distinct (map match_pk (match_rows d))"
    and "find (\<lambda>m. match_pk m = mid) (match_rows d) = Some m"
  shows "find (\<lambda>m. match_pk m = mid) (match_rows (mark_match_as_notified d mid))
           = Some (m\<lparr>notification_sent := True\<rparr>) \<and>
         (\<forall>ops now1 now2.
            mid \<notin> match_pk ` set (get_matches_with_target_odds
                                     (db_run ops (mark_match_as_notified d mid)) now1 now2)) \<and>
         mark_match_as_notified (mark_match_as_notified d mid) mid
           = mark_match_as_notified d mid"
proof -
  have k: "match_pk m = mid"
    using assms(2) by (auto simp: find_Some_iff)
  have 1: "find (\<lambda>m. match_pk m = mid) (match_rows (mark_match_as_notified d mid))
             = Some (m\<lparr>notification_sent := True\<rparr>)"
    using assms(2) k by (simp add: mark_match_as_notified_def find_update_first_same)
  have 2: "\<forall>ops now1 now2.
            mid \<notin> match_pk ` set (get_matches_with_target_odds
                                     (db_run ops (mark_match_as_notified d mid)) now1 now2)"
    using db_mark_match_as_notified_excludes [OF assms] by blast
  show ?thesis
    using 1 2 db_mark_match_as_notified_idem [of d mid] by blast
qed

theorem notified_match_excluded_for_good_witness:
  "distinct (map match_pk (match_rows example_fixtures)) \<and>
   find (\<lambda>m. match_pk m = 1) (match_rows example_fixtures)
     = Some (match_rows example_fixtures ! 0) \<and>
   map match_pk (get_matches_with_target_odds example_fixtures 1700000000000000
                   1700000000000000) = [1, 2] \<and>
   map match_pk (get_matches_with_target_odds (mark_match_as_notified example_fixtures 1)
                   1700000000000000 1700000000000000) = [2] \<and>
   1 \<notin> match_pk ` set (get_matches_with_target_odds
            (db_run [AddMatch ''Home'' ''Away'' ''League'' 1893456000000000 4.25 3.5 1.225 None,
                     MarkMatchAsNotified 1, MarkMatchAsNotified 7]
               (mark_match_as_notified example_fixtures 1))
            1700000600000000 1700000600000000) \<and>
   mark_match_as_notified (mark_match_as_notified example_fixtures 1) 1
     = mark_match_as_notified example_fixtures 1"
proof -
  have d: "distinct (map match_pk (match_rows example_fixtures))"
    by (simp add: example_fixtures_def)
  have f: "find (\<lambda>m. match_pk m = 1) (match_rows example_fixtures)
             = Some (match_rows example_fixtures ! 0)"
    by (simp add: example_fixtures_def)
  have r: "sql_round 4.25 2 = 4.25" "sql_round 4.22 2 = 4.22" "sql_round 1.225 3 = 1.225"
    by (simp_all add: sql_round_def)
  have b: "map match_pk (get_matches_with_target_odds example_fixtures 1700000000000000
                   1700000000000000) = [1, 2]"
    using r by (simp add: get_matches_with_target_odds_def example_fixtures_def)
  have a: "map match_pk (get_matches_with_target_odds (mark_match_as_notified example_fixtures 1)
                   1700000000000000 1700000000000000) = [2]"
    using r by (simp add: get_matches_with_target_odds_def mark_match_as_notified_def
        example_fixtures_def)
  note t = notified_match_excluded_for_good [OF d f]
  show ?thesis
    using d f b a t by blast
qed

section \<open>Properties of the odds cache and matcher\<close>

lemmas example_feed_defs = example_pylib_def example_outcomes_def example_match_def
  example_bookmaker_def example_market_def example_feed_match_def example_service_def

lemma api_fetch_matches_payload:
  "api_fetch_matches key upstream =
     (case upstream_payload key upstream of None \<Rightarrow> JArr [] | Some data \<Rightarrow> data)"
  by (auto simp: api_fetch_matches_def upstream_payload_def split: http_result.splits option.splits)

lemma fetch_matches_fresh:
  "\<not> cache_expired ms now \<Longrightarrow> fetch_matches ms now upstream = (ms, cache ms, False)"
  by (auto simp: cache_expired_def fetch_matches_def split: option.splits)

lemma fetch_matches_expired:
  "cache_expired ms now \<Longrightarrow>
   fetch_matches ms now upstream =
     (case upstream_payload (api_key ms) upstream of
        None \<Rightarrow> (ms, cache ms, True)
      | Some data \<Rightarrow> if py_truthy data
                     then (ms\<lparr>cache := data, last_update := Some now\<rparr>, data, True)
                     else (ms, cache ms, True))"
  by (auto simp: cache_expired_def fetch_matches_def api_fetch_matches_payload Let_def
        split: option.splits)

lemma fetch_all_never_succeeded:
  "\<forall>(now, upstream) \<in> set calls.
      (case upstream_payload (api_key ms) upstream of None \<Rightarrow> True | Some data \<Rightarrow> \<not> py_truthy data)
   \<Longrightarrow> fetch_all ms calls = ms"
proof (induction calls)
  case Nil
  show ?case by simp
next
  case (Cons c calls)
  obtain now upstream where c: "c = (now, upstream)" by (cases c)
  have "fst (fetch_matches ms now upstream) = ms"
  proof (cases "cache_expired ms now")
    case True
    with Cons.prems c show ?thesis
      by (auto simp: fetch_matches_expired split: option.splits)
  next
    case False
    then show ?thesis by (simp add: fetch_matches_fresh)
  qed
  with Cons c show ?case by simp
qed

text \<open>
  Claim C7. The claim says that on every successful upstream fetch the cache is replaced and
  the age clock is reset. With an expired, non-empty cache and an upstream that answers with
  status 200 and the empty list, \<open>fetch_matches\<close> keeps the cache and the time of the last
  update, and returns the old cache.
\<close>

theorem fetch_matches_empty_success_counterexample:
  "cache_expired example_service 1700000700000000 \<and>
   upstream_payload (api_key example_service) (Response 200 (Some (JArr []))) = Some (JArr []) \<and>
   fetch_matches example_service 1700000700000000 (Response 200 (Some (JArr []))) =
     (example_service, JArr [example_feed_match], True) \<and>
   cache example_service \<noteq> JArr [] \<and>
   last_update example_service \<noteq> Some 1700000700000000"
  by (simp add: cache_expired_def upstream_payload_def fetch_matches_def api_fetch_matches_def
        example_service_def)

text \<open>
  Claim C7, as amended. While the age of the cache is below the TTL, \<open>fetch_matches\<close>
  returns the cache unchanged and does not call upstream. Otherwise it calls upstream: a
  successful fetch with a non-empty (truthy) payload replaces the cache, sets the time of the
  last update to now and is returned; a failed fetch, or a successful one with an empty
  payload, leaves cache and clock unchanged and returns the existing cache, expired or not.
  The function always returns a value. As long as no fetch has delivered a non-empty payload
  since the service was created, the result is the empty list.
\<close>

theorem fetch_matches_cache_fallback:
  "(\<not> cache_expired ms now \<longrightarrow> fetch_matches ms now upstream = (ms, cache ms, False)) \<and>
   (\<forall>data. cache_expired ms now \<and> upstream_payload (api_key ms) upstream = Some data \<and>
            py_truthy data \<longrightarrow>
      fetch_matches ms now upstream = (ms\<lparr>cache := data, last_update := Some now\<rparr>, data, True)) \<and>
   (cache_expired ms now \<and>
    (upstream_payload (api_key ms) upstream = None \<or>
     (\<exists>data. upstream_payload (api_key ms) upstream = Some data \<and> \<not> py_truthy data)) \<longrightarrow>
      fetch_matches ms now upstream = (ms, cache ms, True)) \<and>
   (\<forall>key ttl calls.
      (\<forall>(t, u) \<in> set calls.
         case upstream_payload key u of None \<Rightarrow> True | Some data \<Rightarrow> \<not> py_truthy data) \<and>
      (case upstream_payload key upstream of None \<Rightarrow> True | Some data \<Rightarrow> \<not> py_truthy data) \<longrightarrow>
      fst (snd (fetch_matches (fetch_all (init_match_service key ttl) calls) now upstream))
        = JArr [])"
proof (intro conjI allI impI)
  assume "\<not> cache_expired ms now"
  then show "fetch_matches ms now upstream = (ms, cache ms, False)"
    by (rule fetch_matches_fresh)
next
  fix data
  assume "cache_expired ms now \<and> upstream_payload (api_key ms) upstream = Some data \<and>
          py_truthy data"
  then show "fetch_matches ms now upstream =
               (ms\<lparr>cache := data, last_update := Some now\<rparr>, data, True)"
    by (simp add: fetch_matches_expired)
next
  assume "cache_expired ms now \<and>
    (upstream_payload (api_key ms) upstream = None \<or>
     (\<exists>data. upstream_payload (api_key ms) upstream = Some data \<and> \<not> py_truthy data))"
  then show "fetch_matches ms now upstream = (ms, cache ms, True)"
    by (auto simp: fetch_matches_expired)
next
  fix key ttl and calls :: "(instant \<times> http_result) list"
  assume a: "(\<forall>(t, u) \<in> set calls.
         case upstream_payload key u of None \<Rightarrow> True | Some data \<Rightarrow> \<not> py_truthy data) \<and>
      (case upstream_payload key upstream of None \<Rightarrow> True | Some data \<Rightarrow> \<not> py_truthy data)"
  let ?i = "init_match_service key ttl"
  have k: "api_key ?i = key" by (simp add: init_match_service_def)
  have "fetch_all ?i calls = ?i"
    using a by (intro fetch_all_never_succeeded) (simp add: k)
  moreover have "cache_expired ?i now"
    by (simp add: cache_expired_def init_match_service_def)
  moreover have "cache ?i = JArr []"
    by (simp add: init_match_service_def)
  ultimately show "fst (snd (fetch_matches (fetch_all ?i calls) now upstream)) = JArr []"
    using a k by (auto simp: fetch_matches_expired split: option.splits)
qed

text \<open>
  Claim C9. When the cache is expired and upstream answers successfully with the empty list,
  \<open>fetch_matches\<close> does what it does when the request fails: the cache and the time of the
  last update stay as they are and the old cache is returned.
\<close>

theorem fetch_matches_empty_snapshot_is_failure:
  assumes "cache_expired ms now"
    and "upstream_payload (api_key ms) upstream = Some (JArr [])"
  shows "fetch_matches ms now upstream = (ms, cache ms, True) \<and>
         fetch_matches ms now upstream = fetch_matches ms now RequestFailed \<and>
         cache (fst (fetch_matches ms now upstream)) = cache ms \<and>
         last_update (fst (fetch_matches ms now upstream)) = last_update ms"
proof -
  have 1: "fetch_matches ms now upstream = (ms, cache ms, True)"
    using assms by (simp add: fetch_matches_expired)
  have "upstream_payload (api_key ms) RequestFailed = None"
    by (simp add: upstream_payload_def)
  then have 2: "fetch_matches ms now RequestFailed = (ms, cache ms, True)"
    using assms(1) by (simp add: fetch_matches_expired)
  show ?thesis using 1 2 by simp
qed

theorem fetch_matches_cache_fallback_witness:
  "\<not> cache_expired example_service 1700000100000000 \<and>
   fetch_matches example_service 1700000100000000 (Response 200 (Some (JArr [example_other_match])))
     = (example_service, JArr [example_feed_match], False) \<and>
   cache_expired example_service 1700000700000000 \<and>
   upstream_payload (api_key example_service) (Response 200 (Some (JArr [example_other_match])))
     = Some (JArr [example_other_match]) \<and>
   py_truthy (JArr [example_other_match]) \<and>
   fetch_matches example_service 1700000700000000 (Response 200 (Some (JArr [example_other_match])))
     = (example_service\<lparr>cache := JArr [example_other_match],
                         last_update := Some 1700000700000000\<rparr>,
        JArr [example_other_match], True) \<and>
   upstream_payload (api_key example_service) (Response 503 None) = None \<and>
   fetch_matches example_service 1700000700000000 (Response 503 None)
     = (example_service, JArr [example_feed_match], True) \<and>
   fst (snd (fetch_matches
               (fetch_all (init_match_service (Some ''key'') 600)
                  [(1700000000000000, RequestFailed), (1700000700000000, Response 500 None)])
               1700001400000000 (Response 200 None))) = JArr []"
proof -
  have f: "\<not> cache_expired example_service 1700000100000000"
    by (simp add: cache_expired_def example_service_def)
  have e: "cache_expired example_service 1700000700000000"
    by (simp add: cache_expired_def example_service_def)
  have p: "upstream_payload (api_key example_service)
             (Response 200 (Some (JArr [example_other_match]))) = Some (JArr [example_other_match])"
    by (simp add: upstream_payload_def example_service_def)
  have t: "py_truthy (JArr [example_other_match])" by simp
  have n: "upstream_payload (api_key example_service) (Response 503 None) = None"
    by (simp add: upstream_payload_def example_service_def)
  have c: "cache example_service = JArr [example_feed_match]"
    by (simp add: example_service_def)
  have k: "\<forall>(t, u) \<in> set [(1700000000000000::int, RequestFailed),
                            (1700000700000000, Response 500 None)].
             case upstream_payload (Some ''key'') u of None \<Rightarrow> True
             | Some data \<Rightarrow> \<not> py_truthy data"
    by (simp add: upstream_payload_def)
  have l: "case upstream_payload (Some ''key'') (Response 200 None) of None \<Rightarrow> True
           | Some data \<Rightarrow> \<not> py_truthy data"
    by (simp add: upstream_payload_def)
  note t1 = fetch_matches_cache_fallback [of example_service 1700000100000000
              "Response 200 (Some (JArr [example_other_match]))"]
  note t2 = fetch_matches_cache_fallback [of example_service 1700000700000000
              "Response 200 (Some (JArr [example_other_match]))"]
  note t3 = fetch_matches_cache_fallback [of example_service 1700000700000000 "Response 503 None"]
  note t4 = fetch_matches_cache_fallback [of example_service 1700001400000000 "Response 200 None"]
  have r1: "fetch_matches example_service 1700000100000000
              (Response 200 (Some (JArr [example_other_match])))
            = (example_service, JArr [example_feed_match], False)"
    using t1 f c by simp
  have r2: "fetch_matches example_service 1700000700000000
              (Response 200 (Some (JArr [example_other_match])))
     = (example_service\<lparr>cache := JArr [example_other_match],
                         last_update := Some 1700000700000000\<rparr>,
        JArr [example_other_match], True)"
    using t2 e p t by blast
  have r3: "fetch_matches example_service 1700000700000000 (Response 503 None)
     = (example_service, JArr [example_feed_match], True)"
    using t3 e n c by simp
  have r4: "fst (snd (fetch_matches
               (fetch_all (init_match_service (Some ''key'') 600)
                  [(1700000000000000, RequestFailed), (1700000700000000, Response 500 None)])
               1700001400000000 (Response 200 None))) = JArr []"
    using t4 k l by blast
  show ?thesis
    using f r1 e p t r2 n r3 r4 by blast
qed

theorem fetch_matches_empty_snapshot_is_failure_witness:
  "cache_expired example_service 1700000700000000 \<and>
   upstream_payload (api_key example_service) (Response 200 (Some (JArr []))) = Some (JArr []) \<and>
   fetch_matches example_service 1700000700000000 (Response 200 (Some (JArr []))) =
     (example_service, cache example_service, True) \<and>
   fetch_matches example_service 1700000700000000 (Response 200 (Some (JArr []))) =
     fetch_matches example_service 1700000700000000 RequestFailed \<and>
   cache (fst (fetch_matches example_service 1700000700000000 (Response 200 (Some (JArr [])))))
     = JArr [example_feed_match] \<and>
   last_update (fst (fetch_matches example_service 1700000700000000
                       (Response 200 (Some (JArr []))))) = Some 1700000000000000"
proof -
  have e: "cache_expired example_service 1700000700000000"
    by (simp add: cache_expired_def example_service_def)
  have p: "upstream_payload (api_key example_service) (Response 200 (Some (JArr [])))
             = Some (JArr [])"
    by (simp add: upstream_payload_def example_service_def)
  have c: "cache example_service = JArr [example_feed_match]"
    "last_update example_service = Some 1700000000000000"
    by (simp_all add: example_service_def)
  note t = fetch_matches_empty_snapshot_is_failure [OF e p, unfolded c]
  show ?thesis
    unfolding c using t e p by blast
qed

lemma and_then_Inr:
  "and_then r f = Inr y \<longleftrightarrow> (\<exists>x. r = Inr x \<and> f x = Inr y)"
  by (cases r) (simp_all add: and_then_def)

lemma py_item_0_dict:
  assumes "py_item j 0 = Inr b" and "py_get b k d = Inr v"
  shows "\<exists>xs. j = JArr (b # xs)"
proof (cases j)
  case (JArr xs)
  with assms(1) show ?thesis by (cases xs) (auto split: if_splits)
next
  case (JStr s)
  with assms show ?thesis by (auto split: if_splits)
qed (use assms in auto)

lemma find_h2h_dicts:
  "find_h2h (m # ms) = Inr r \<Longrightarrow> \<exists>kvs. m = JObj kvs"
  by (cases m) (simp_all add: and_then_def)

lemma py_iter_markets:
  assumes "py_truthy markets" and "py_iter markets = Inr ms" and "find_h2h ms = Inr (Some h)"
  shows "markets = JArr ms"
proof (cases markets)
  case (JArr xs)
  with assms(2) show ?thesis by simp
next
  case (JStr s)
  with assms(1) obtain c cs where "s = c # cs" by (cases s) auto
  with JStr assms(2) have "ms = JStr [c] # map (\<lambda>c. JStr [c]) cs" by auto
  with assms(3) show ?thesis by (simp add: and_then_def)
next
  case (JObj kvs)
  with assms(1) have "map fst kvs \<noteq> []" by simp
  then have "remdups (map fst kvs) \<noteq> []" by (simp only: remdups_eq_nil_iff not_False_eq_True)
  then obtain x xs where "remdups (map fst kvs) = x # xs"
    by (auto simp only: neq_Nil_conv)
  with JObj assms(2) have "ms = JStr x # map JStr xs" by auto
  with assms(3) show ?thesis by (simp add: and_then_def)
qed (use assms in auto)

lemma outcomes_two:
  assumes "py_len outcomes = Inr n" and "\<not> n < 2"
    and "py_item outcomes 0 = Inr o0" and "py_get o0 k d = Inr v"
    and "py_item outcomes 1 = Inr o1"
  shows "\<exists>more. outcomes = JArr (o0 # o1 # more)"
proof -
  from py_item_0_dict [OF assms(3,4)] obtain xs where x: "outcomes = JArr (o0 # xs)" by blast
  with assms(5) obtain more where "xs = o1 # more"
    by (cases xs) (auto split: if_splits)
  with x show ?thesis by simp
qed

lemma visit_match_appended:
  assumes "visit_match lib now min_odds max_odds match = Inr True"
  shows "\<exists>bookmaker others markets h2h outcome0 outcome1 more price0 price1 odds_1 odds_2.
           py_get match ''bookmakers'' (JArr []) = Inr (JArr (bookmaker # others)) \<and>
           py_get bookmaker ''markets'' (JArr []) = Inr (JArr markets) \<and>
           find_h2h markets = Inr (Some h2h) \<and>
           py_get h2h ''outcomes'' (JArr []) = Inr (JArr (outcome0 # outcome1 # more)) \<and>
           py_get outcome0 ''price'' (JNum 0) = Inr price0 \<and> py_float lib price0 = Inr odds_1 \<and>
           py_get outcome1 ''price'' (JNum 0) = Inr price1 \<and> py_float lib price1 = Inr odds_2 \<and>
           (min_odds \<le> odds_1 \<and> odds_1 \<le> max_odds \<or> min_odds \<le> odds_2 \<and> odds_2 \<le> max_odds)"
proof -
  from assms obtain bookmakers bookmaker markets market_list h2h outcomes n
      outcome0 price0 odds_1 outcome1 price1 odds_2 where
    h: "py_get match ''bookmakers'' (JArr []) = Inr bookmakers"
       "py_item bookmakers 0 = Inr bookmaker"
       "py_get bookmaker ''markets'' (JArr []) = Inr markets"
       "py_truthy markets"
       "py_iter markets = Inr market_list"
       "find_h2h market_list = Inr (Some h2h)"
       "py_get h2h ''outcomes'' (JArr []) = Inr outcomes"
       "py_len outcomes = Inr n" "\<not> n < 2"
       "py_item outcomes 0 = Inr outcome0"
       "py_get outcome0 ''price'' (JNum 0) = Inr price0" "py_float lib price0 = Inr odds_1"
       "py_item outcomes 1 = Inr outcome1"
       "py_get outcome1 ''price'' (JNum 0) = Inr price1" "py_float lib price1 = Inr odds_2"
       "min_odds \<le> odds_1 \<and> odds_1 \<le> max_odds \<or> min_odds \<le> odds_2 \<and> odds_2 \<le> max_odds"
    unfolding visit_match_def
    by (auto simp: and_then_Inr split: if_splits option.splits)
  from py_item_0_dict [OF h(2,3)] obtain others where b: "bookmakers = JArr (bookmaker # others)"
    by blast
  have m: "markets = JArr market_list"
    using h(4,5,6) by (rule py_iter_markets)
  from outcomes_two [OF h(8,9,10,11,13)] obtain more where
    o: "outcomes = JArr (outcome0 # outcome1 # more)" by blast
  show ?thesis
    using h(1,3,6,7,11,12,14,15,16) b m o by blast
qed

text \<open>
  Conversely, a match that starts at an offset-naive instant not before \<open>now\<close> and whose
  first bookmaker offers such a market with one of the first two prices in range is appended.
\<close>

lemma visit_match_appended_conv:
  assumes "py_get match ''commence_time'' JNull = Inr (JStr s)" and "s \<noteq> []"
    and "py_replace_Z (JStr s) = Inr iso_str" and "fromisoformat lib iso_str = Some (Naive t)"
    and "\<not> t < now"
    and "py_get match ''bookmakers'' (JArr []) = Inr (JArr (bookmaker # others))"
    and "py_get bookmaker ''markets'' (JArr []) = Inr (JArr markets)"
    and "find_h2h markets = Inr (Some h2h)"
    and "py_get h2h ''outcomes'' (JArr []) = Inr (JArr (outcome0 # outcome1 # rest))"
    and "py_get outcome0 ''price'' (JNum 0) = Inr price0" and "py_float lib price0 = Inr first_odds"
    and "py_get outcome1 ''price'' (JNum 0) = Inr price1" and "py_float lib price1 = Inr second_odds"
    and "min_odds \<le> first_odds \<and> first_odds \<le> max_odds \<or> min_odds \<le> second_odds \<and> second_odds \<le> max_odds"
  shows "visit_match lib now min_odds max_odds match = Inr True"
proof -
  have m: "markets \<noteq> []"
    using assms(8) by (cases markets) simp_all
  have h: "py_truthy h2h"
  proof -
    obtain kvs where "h2h = JObj kvs"
      using assms(9) by (cases h2h) simp_all
    moreover have "kvs \<noteq> []"
    proof
      assume "kvs = []"
      with \<open>h2h = JObj kvs\<close> assms(9) show False by simp
    qed
    ultimately show ?thesis by simp
  qed
  show ?thesis
    unfolding visit_match_def
    using assms m h by (simp add: and_then_def py_fromisoformat_def)
qed

text \<open>
  Claim C10. Every match that \<open>check_for_matches_with_target_odds\<close> returns has a list of
  bookmakers whose first element has a list of markets, in which the loop finds a market with
  the key h2h, whose outcomes are a list with at least two elements, and the price of the
  first or of the second outcome lies between \<open>min_odds\<close> and \<open>max_odds\<close>. So a match
  whose first bookmaker has no such market, or whose first two prices are both out of range,
  is left out, whatever the other bookmakers and the further outcomes offer.
\<close>

theorem check_for_matches_first_bookmaker_only:
  assumes "check_for_matches_with_target_odds lib ms now_fetch upstream now min_odds max_odds
             = (ms', Inr result)"
    and "match \<in> set result"
  shows "\<exists>bookmaker others markets h2h outcome0 outcome1 more price0 price1 odds_1 odds_2.
           py_get match ''bookmakers'' (JArr []) = Inr (JArr (bookmaker # others)) \<and>
           py_get bookmaker ''markets'' (JArr []) = Inr (JArr markets) \<and>
           find_h2h markets = Inr (Some h2h) \<and>
           py_get h2h ''outcomes'' (JArr []) = Inr (JArr (outcome0 # outcome1 # more)) \<and>
           py_get outcome0 ''price'' (JNum 0) = Inr price0 \<and> py_float lib price0 = Inr odds_1 \<and>
           py_get outcome1 ''price'' (JNum 0) = Inr price1 \<and> py_float lib price1 = Inr odds_2 \<and>
           (min_odds \<le> odds_1 \<and> odds_1 \<le> max_odds \<or> min_odds \<le> odds_2 \<and> odds_2 \<le> max_odds)"
proof -
  obtain ms1 snapshot called where f: "fetch_matches ms now_fetch upstream = (ms1, snapshot, called)"
    by (cases "fetch_matches ms now_fetch upstream") auto
  with assms(1) obtain match_list where
    "result = filter (\<lambda>match. visit_match lib now min_odds max_odds match = Inr True) match_list"
    by (auto simp: check_for_matches_with_target_odds_def and_then_Inr)
  with assms(2) have "visit_match lib now min_odds max_odds match = Inr True"
    by simp
  then show ?thesis by (rule visit_match_appended)
qed

lemma visit_example_feed_match:
  "visit_match example_pylib 1700000700000001 1.5 5 example_feed_match = Inr True"
  by (simp add: example_feed_defs visit_match_def and_then_def py_fromisoformat_def)

lemma visit_example_other_match:
  "visit_match example_pylib 1700000700000001 1.5 5 example_other_match = Inr False"
  by (simp add: example_feed_defs example_other_match_def visit_match_def and_then_def
        py_fromisoformat_def)

theorem check_for_matches_first_bookmaker_only_witness:
  "check_for_matches_with_target_odds example_pylib example_service 1700000700000000
     (Response 200 (Some (JArr [example_feed_match, example_other_match]))) 1700000700000001 1.5 5
     = (example_service\<lparr>cache := JArr [example_feed_match, example_other_match],
                         last_update := Some 1700000700000000\<rparr>,
        Inr [example_feed_match]) \<and>
   example_feed_match \<in> set [example_feed_match] \<and>
   example_other_match \<notin> set [example_feed_match] \<and>
   (\<exists>bookmaker others markets h2h outcome0 outcome1 more price0 price1 odds_1 odds_2.
      py_get example_feed_match ''bookmakers'' (JArr []) = Inr (JArr (bookmaker # others)) \<and>
      py_get bookmaker ''markets'' (JArr []) = Inr (JArr markets) \<and>
      find_h2h markets = Inr (Some h2h) \<and>
      py_get h2h ''outcomes'' (JArr []) = Inr (JArr (outcome0 # outcome1 # more)) \<and>
      py_get outcome0 ''price'' (JNum 0) = Inr price0 \<and> py_float example_pylib price0 = Inr odds_1 \<and>
      py_get outcome1 ''price'' (JNum 0) = Inr price1 \<and> py_float example_pylib price1 = Inr odds_2 \<and>
      (1.5 \<le> odds_1 \<and> odds_1 \<le> 5 \<or> 1.5 \<le> odds_2 \<and> odds_2 \<le> 5))"
proof -
  have f: "fetch_matches example_service 1700000700000000
             (Response 200 (Some (JArr [example_feed_match, example_other_match])))
           = (example_service\<lparr>cache := JArr [example_feed_match, example_other_match],
                               last_update := Some 1700000700000000\<rparr>,
              JArr [example_feed_match, example_other_match], True)"
    by (simp add: fetch_matches_def api_fetch_matches_def example_service_def Let_def)
  have c: "check_for_matches_with_target_odds example_pylib example_service 1700000700000000
     (Response 200 (Some (JArr [example_feed_match, example_other_match]))) 1700000700000001 1.5 5
     = (example_service\<lparr>cache := JArr [example_feed_match, example_other_match],
                         last_update := Some 1700000700000000\<rparr>,
        Inr [example_feed_match])"
    by (simp add: check_for_matches_with_target_odds_def f and_then_def
          visit_example_feed_match [simplified] visit_example_other_match [simplified])
  have m: "example_feed_match \<in> set [example_feed_match]" by simp
  have n: "example_other_match \<notin> set [example_feed_match]"
    by (simp add: example_feed_defs example_other_match_def)
  show ?thesis
    using check_for_matches_first_bookmaker_only [OF c m] c m n by blast
qed

text \<open>
  The feed path keeps no notified state: \<open>MatchService.mark_match_as_notified\<close> changes
  nothing, and the match with the id m1 that a sweep returned is returned again by the next
  sweep, from the cache as well as after a refresh that delivers it again.
\<close>

lemma service_mark_match_as_notified_no_effect:
  "check_for_matches_with_target_odds example_pylib example_service 1700000100000000
     RequestFailed 1700000100000001 1.5 5 = (example_service, Inr [example_feed_match]) \<and>
   py_get example_feed_match ''id'' (JStr ''unknown'') = Inr (JStr ''m1'') \<and>
   service_mark_match_as_notified example_service (JStr ''m1'') = example_service \<and>
   check_for_matches_with_target_odds example_pylib
     (service_mark_match_as_notified example_service (JStr ''m1'')) 1700000200000000
     RequestFailed 1700000200000001 1.5 5 = (example_service, Inr [example_feed_match]) \<and>
   check_for_matches_with_target_odds example_pylib
     (service_mark_match_as_notified example_service (JStr ''m1'')) 1700000700000000
     (Response 200 (Some (JArr [example_feed_match]))) 1700000700000001 1.5 5
     = (example_service\<lparr>last_update := Some 1700000700000000\<rparr>, Inr [example_feed_match])"
proof -
  have v: "visit_match example_pylib now 1.5 5 example_feed_match = Inr True"
    if "now \<le> 1893456000000000" for now
    using that
    by (simp add: example_feed_defs visit_match_def and_then_def py_fromisoformat_def)
  have f1: "fetch_matches example_service 1700000100000000 RequestFailed
              = (example_service, JArr [example_feed_match], False)"
    by (simp add: fetch_matches_def example_service_def)
  have f2: "fetch_matches example_service 1700000200000000 RequestFailed
              = (example_service, JArr [example_feed_match], False)"
    by (simp add: fetch_matches_def example_service_def)
  have f3: "fetch_matches example_service 1700000700000000
              (Response 200 (Some (JArr [example_feed_match])))
              = (example_service\<lparr>last_update := Some 1700000700000000\<rparr>,
                 JArr [example_feed_match], True)"
    by (simp add: fetch_matches_def api_fetch_matches_def example_service_def Let_def)
  have i: "py_get example_feed_match ''id'' (JStr ''unknown'') = Inr (JStr ''m1'')"
    by (simp add: example_feed_defs)
  show ?thesis
    by (simp add: check_for_matches_with_target_odds_def service_mark_match_as_notified_def
          f1 f2 f3 i v [simplified] and_then_def)
qed

end
